theory Spec2Isabelle
  imports Main "HOL-Library.AList" "HOL-Library.Sorting_Algorithms"
    "HOL-Library.List_Lexorder" "HOL-Library.Char_ord"
begin

section \<open>JavaScript exceptions and strings\<close>

text \<open>
  An exception of the JavaScript source is a value: every function of the model that can
  throw returns \<open>error + 'a\<close>, with \<open>Inl\<close> for the exception.
  \<^item> \<open>TypeError\<close>: a property read on \<open>undefined\<close>, a call of something that is not a
    function, \<open>Object.fromEntries\<close> on an element that is not an object;
  \<^item> \<open>RangeError\<close>: the call stack is exhausted (the recursion does not end); the model
    counts it with fuel;
  \<^item> \<open>GraphQLError\<close>: thrown by the graphql library.
\<close>

datatype error = TypeError | RangeError | GraphQLError

text \<open>\<open>Array.prototype.join\<close> on an array of strings.\<close>

fun join :: "string \<Rightarrow> string list \<Rightarrow> string" where
  "join sep [] = []"
| "join sep [x] = x"
| "join sep (x # y # ys) = x @ sep @ join sep (y # ys)"

text \<open>Runs a list of computations in order and stops at the first exception, as
  \<open>Array.prototype.map\<close> with a throwing callback does.\<close>

fun sequence :: "(error + 'a) list \<Rightarrow> error + 'a list" where
  "sequence [] = Inr []"
| "sequence (r # rs) =
     (case r of
        Inl e \<Rightarrow> Inl e
      | Inr x \<Rightarrow> (case sequence rs of Inl e \<Rightarrow> Inl e | Inr xs \<Rightarrow> Inr (x # xs)))"

section \<open>The schema\<close>

text \<open>
  A type of the schema is a named type under list and non-null wrappers
  (\<open>GraphQLList\<close>, \<open>GraphQLNonNull\<close>, both with \<open>ofType\<close>). The named types are looked
  up in the schema by name; the library's \<open>GraphQLNonNull\<close> refuses a non-null inner type,
  which \<open>wellFormed\<close> states.
\<close>

datatype gqltype = Named string | ListT gqltype | NonNull gqltype

fun wellFormed :: "gqltype \<Rightarrow> bool" where
  "wellFormed (Named n) = True"
| "wellFormed (ListT t) = wellFormed t"
| "wellFormed (NonNull (NonNull t)) = False"
| "wellFormed (NonNull t) = wellFormed t"

record fieldDef =
  fieldName :: string
  fieldType :: gqltype
  fieldDescription :: "string option"
  fieldArgs :: "string list"

datatype namedDef =
    ScalarType
  | EnumType "string list"
  | ObjectType "fieldDef list"
  | InterfaceType "fieldDef list"
  | UnionType "string list"
  | InputObjectType "fieldDef list"

record schema =
  typeMap :: "(string \<times> namedDef) list"
  queryType :: "string option"
  mutationType :: "string option"
  subscriptionType :: "string option"

text \<open>\<open>schema.getType(name)\<close>: the definition of the named type, if the schema has it.\<close>

definition getType :: "schema \<Rightarrow> string \<Rightarrow> namedDef option" where
  "getType S n = map_of (typeMap S) n"

fun isListType :: "gqltype option \<Rightarrow> bool" where
  "isListType (Some (ListT t)) = True"
| "isListType _ = False"

fun isNonNullType :: "gqltype option \<Rightarrow> bool" where
  "isNonNullType (Some (NonNull t)) = True"
| "isNonNullType _ = False"

fun isWrappingType :: "gqltype option \<Rightarrow> bool" where
  "isWrappingType t = (isListType t \<or> isNonNullType t)"

text \<open>\<open>getNamedType\<close>: strips every wrapper; \<open>undefined\<close> stays \<open>undefined\<close>.\<close>

fun namedOf :: "gqltype \<Rightarrow> string" where
  "namedOf (Named n) = n"
| "namedOf (ListT t) = namedOf t"
| "namedOf (NonNull t) = namedOf t"

definition getNamedType :: "gqltype option \<Rightarrow> string option" where
  "getNamedType t = map_option namedOf t"

definition isObjectType :: "schema \<Rightarrow> string option \<Rightarrow> bool" where
  "isObjectType S n =
     (case n of None \<Rightarrow> False
      | Some m \<Rightarrow> (case getType S m of Some (ObjectType fs) \<Rightarrow> True | _ \<Rightarrow> False))"

definition isInputObjectType :: "schema \<Rightarrow> string option \<Rightarrow> bool" where
  "isInputObjectType S n =
     (case n of None \<Rightarrow> False
      | Some m \<Rightarrow> (case getType S m of Some (InputObjectType fs) \<Rightarrow> True | _ \<Rightarrow> False))"

definition isInterfaceType :: "schema \<Rightarrow> string option \<Rightarrow> bool" where
  "isInterfaceType S n =
     (case n of None \<Rightarrow> False
      | Some m \<Rightarrow> (case getType S m of Some (InterfaceType fs) \<Rightarrow> True | _ \<Rightarrow> False))"

definition isUnionType :: "schema \<Rightarrow> string option \<Rightarrow> bool" where
  "isUnionType S n =
     (case n of None \<Rightarrow> False
      | Some m \<Rightarrow> (case getType S m of Some (UnionType ms) \<Rightarrow> True | _ \<Rightarrow> False))"

definition isEnumType :: "schema \<Rightarrow> string option \<Rightarrow> bool" where
  "isEnumType S n =
     (case n of None \<Rightarrow> False
      | Some m \<Rightarrow> (case getType S m of Some (EnumType vs) \<Rightarrow> True | _ \<Rightarrow> False))"

text \<open>\<open>namedType.getValues()\<close> of an enum type: the values in declared order.\<close>

definition getValues :: "schema \<Rightarrow> string \<Rightarrow> string list" where
  "getValues S n = (case getType S n of Some (EnumType vs) \<Rightarrow> vs | _ \<Rightarrow> [])"

text \<open>
  \<open>namedType.getFields()\<close>: object, interface and input-object types have the method;
  on any other named type the call throws a \<open>TypeError\<close>.
\<close>

definition getFields :: "schema \<Rightarrow> string \<Rightarrow> error + fieldDef list" where
  "getFields S n =
     (case getType S n of
        Some (ObjectType fs) \<Rightarrow> Inr fs
      | Some (InterfaceType fs) \<Rightarrow> Inr fs
      | Some (InputObjectType fs) \<Rightarrow> Inr fs
      | _ \<Rightarrow> Inl TypeError)"

text \<open>\<open>fields[name]\<close>: the field map is keyed by field name.\<close>

definition lookupField :: "fieldDef list \<Rightarrow> string \<Rightarrow> fieldDef option" where
  "lookupField fs n = find (\<lambda>f. fieldName f = n) fs"

section \<open>Type nodes of the document\<close>

text \<open>
  The type of a variable definition is a node of the parsed document: \<open>NamedType\<close>,
  \<open>ListType\<close> or \<open>NonNullType\<close>. \<open>printType\<close> is the library's \<open>print\<close> on such a node.
\<close>

datatype typeNode = NamedType string | ListType typeNode | NonNullType typeNode

fun printType :: "typeNode \<Rightarrow> string" where
  "printType (NamedType n) = n"
| "printType (ListType t) = ''['' @ printType t @ '']''"
| "printType (NonNullType t) = printType t @ ''!''"

text \<open>
  The grammar has no non-null type directly under a non-null type: the printed text
  \<open>T!!\<close> of such a node does not parse, and \<open>parseType\<close> throws. On every other node
  parsing the printed text gives the node back (the names of a parsed document are
  GraphQL names). \<open>reparse\<close> is \<open>parseType (print t)\<close>.
\<close>

fun grammatical :: "typeNode \<Rightarrow> bool" where
  "grammatical (NamedType n) = True"
| "grammatical (ListType t) = grammatical t"
| "grammatical (NonNullType (NonNullType t)) = False"
| "grammatical (NonNullType t) = grammatical t"

definition reparse :: "typeNode \<Rightarrow> error + typeNode" where
  "reparse t = (if grammatical t then Inr t else Inl GraphQLError)"

text \<open>\<open>typeFromAST\<close>: \<open>undefined\<close> when the schema does not have the named type.\<close>

fun typeFromAST :: "schema \<Rightarrow> typeNode \<Rightarrow> gqltype option" where
  "typeFromAST S (NamedType n) = (case getType S n of None \<Rightarrow> None | Some d \<Rightarrow> Some (Named n))"
| "typeFromAST S (ListType t) = map_option ListT (typeFromAST S t)"
| "typeFromAST S (NonNullType t) = map_option NonNull (typeFromAST S t)"

section \<open>Documents\<close>

record variableDefinition =
  variableName :: string
  variableType :: typeNode

datatype valueNode = Variable string | Literal string

record argument =
  argumentName :: string
  argumentValue :: valueNode

text \<open>
  A selection is a field (optional alias, name, optional arguments, optional selection
  set), an inline fragment (optional type condition, selection set) or a fragment spread
  (the fragment's name).
\<close>

datatype selection =
    Field "string option" string "argument list option" "selection list option"
  | InlineFragment "string option" "selection list"
  | FragmentSpread string

datatype definitionKind = OperationDefinition | FragmentDefinition | OtherDefinition

datatype operationKind = Query | Mutation | Subscription

record definitionNode =
  kind :: definitionKind
  operation :: "operationKind option"
  typeCondition :: "string option"
  variableDefinitions :: "variableDefinition list option"
  selectionSet :: "selection list option"

section \<open>JavaScript values\<close>

text \<open>
  The translator passes around untyped values: \<open>undefined\<close>, \<open>null\<close>, strings, a \<open>Set\<close> of
  enum values (in insertion order), plain objects (their own properties in insertion
  order) and arrays. An entry \<open>[displayedName, {type, description}]\<close> is an array of a
  string and an object; a list type is the one-element array \<open>[finalType]\<close>.

  The two scalar tables are object literals, and a lookup \<open>table[key]\<close> finds, after the
  properties of the literal, those it inherits from \<open>Object.prototype\<close>. \<open>Inherited name\<close>
  is the member of \<open>Object.prototype\<close> of that name: a built-in function, or for \<open>__proto__\<close>
  the prototype object itself.
\<close>

datatype jsv =
    Undefined
  | Null
  | Str string
  | SetOf "string list"
  | Obj "(string \<times> jsv) list"
  | Arr "jsv list"
  | Inherited string

definition objectPrototype :: "string list" where
  "objectPrototype =
     [''constructor'', ''__defineGetter__'', ''__defineSetter__'', ''hasOwnProperty'',
      ''__lookupGetter__'', ''__lookupSetter__'', ''isPrototypeOf'', ''propertyIsEnumerable'',
      ''toString'', ''valueOf'', ''__proto__'', ''toLocaleString'']"

text \<open>\<open>literal[key]\<close> for an object literal with string values.\<close>

definition property :: "(string \<times> string) list \<Rightarrow> string \<Rightarrow> jsv" where
  "property literal propertyName =
     (case map_of literal propertyName of
        Some s \<Rightarrow> Str s
      | None \<Rightarrow> if propertyName \<in> set objectPrototype then Inherited propertyName
                else Undefined)"

text \<open>\<open>Boolean(v)\<close>.\<close>

fun truthy :: "jsv \<Rightarrow> bool" where
  "truthy Undefined = False"
| "truthy Null = False"
| "truthy (Str s) = (s \<noteq> [])"
| "truthy _ = True"

text \<open>\<open>String(v)\<close>, which a template literal applies to what it interpolates and which
  turns the first component of an entry into a property key. An array joins its elements
  with commas, \<open>undefined\<close> and \<open>null\<close> elements as empty text. A built-in function prints
  as \<open>function name() { [native code] }\<close>, the constructor under its name \<open>Object\<close>.\<close>

fun toStringJS :: "jsv \<Rightarrow> string" where
  "toStringJS Undefined = ''undefined''"
| "toStringJS Null = ''null''"
| "toStringJS (Str s) = s"
| "toStringJS (SetOf xs) = ''[object Set]''"
| "toStringJS (Obj ps) = ''[object Object]''"
| "toStringJS (Arr xs) =
     join '','' (map (\<lambda>x. case x of Undefined \<Rightarrow> [] | Null \<Rightarrow> [] | _ \<Rightarrow> toStringJS x) xs)"
| "toStringJS (Inherited propertyName) =
     (if propertyName = ''__proto__'' then ''[object Object]''
      else ''function '' @ (if propertyName = ''constructor'' then ''Object'' else propertyName)
           @ ''() { [native code] }'')"

text \<open>\<open>v[i]\<close> for \<open>i\<close> 0 or 1: an element of an array, a property of an object.\<close>

fun element :: "jsv \<Rightarrow> nat \<Rightarrow> jsv" where
  "element (Arr xs) i = (if i < length xs then xs ! i else Undefined)"
| "element (Obj ps) i =
     (case map_of ps (if i = 0 then ''0'' else ''1'') of None \<Rightarrow> Undefined | Some v \<Rightarrow> v)"
| "element v i = Undefined"

text \<open>
  \<open>Object.fromEntries\<close>: every element must be an object (else \<open>TypeError\<close>); its components
  0 and 1 are the key and the value. A key written twice keeps its first position and
  takes the last value. (Display names are GraphQL names, so no key is an array index,
  which an object would list first.)
\<close>

fun isObject :: "jsv \<Rightarrow> bool" where
  "isObject (SetOf xs) = True"
| "isObject (Obj ps) = True"
| "isObject (Arr xs) = True"
| "isObject (Inherited propertyName) = True"
| "isObject _ = False"

fun addEntries :: "jsv list \<Rightarrow> (string \<times> jsv) list \<Rightarrow> error + (string \<times> jsv) list" where
  "addEntries [] acc = Inr acc"
| "addEntries (e # es) acc =
     (if isObject e
      then addEntries es (AList.update (toStringJS (element e 0)) (element e 1) acc)
      else Inl TypeError)"

definition fromEntries :: "jsv list \<Rightarrow> error + jsv" where
  "fromEntries es = (case addEntries es [] of Inl e \<Rightarrow> Inl e | Inr ps \<Rightarrow> Inr (Obj ps))"

text \<open>\<open>new Set(values)\<close>: the values without repetition, each at its first place.\<close>

definition newSet :: "string list \<Rightarrow> jsv" where
  "newSet vs = SetOf (fold (\<lambda>v acc. if v \<in> set acc then acc else acc @ [v]) vs [])"

section \<open>The type mapper\<close>

text \<open>The scalar table of \<open>typeScriptForGraphQLType\<close>, an object literal.\<close>

definition scalarMap :: "(string \<times> string) list" where
  "scalarMap =
     [(''String'', ''string''), (''ID'', ''string''), (''Int'', ''number''),
      (''Float'', ''number''), (''Boolean'', ''boolean'')]"

definition newline :: string where
  "newline = [CHR 0x0A]"

text \<open>The doc comment in front of an entry; an absent or empty description gives none.\<close>

definition docComment :: "string option \<Rightarrow> string" where
  "docComment d =
     (case d of
        None \<Rightarrow> []
      | Some s \<Rightarrow> (if s = [] then []
                  else ''/**'' @ newline @ ''* '' @ s @ newline @ ''*/'' @ newline))"

text \<open>
  \<open>typeScriptForGraphQLType (schema, gqlType)\<close>. The tests come in the source's order:
  list, object or input object, any other wrapper (non-null), enum, and last the scalar
  table with \<open>any\<close> as the default; the key of the lookup is the name of the type, and the
  text \<open>undefined\<close> when there is no type. What the table gives is returned as it is, a
  string or not, and every other result is a template literal. The recursion into the
  fields of an object type follows the schema and need not end (a type may refer to
  itself); each such descent takes one unit of fuel, and \<open>Inl RangeError\<close> is the exhausted
  stack.
\<close>

fun typeScriptForGraphQLType :: "schema \<Rightarrow> nat \<Rightarrow> gqltype option \<Rightarrow> error + jsv" where
  "typeScriptForGraphQLType S k None =
     (let basicType = property scalarMap ''undefined''
      in Inr (if truthy basicType then basicType else Str ''any''))"
| "typeScriptForGraphQLType S k (Some (ListT t)) =
     (case typeScriptForGraphQLType S k (Some t) of
        Inl e \<Rightarrow> Inl e
      | Inr subType \<Rightarrow> Inr (Str (''Array<'' @ toStringJS subType @ ''>'')))"
| "typeScriptForGraphQLType S k (Some (NonNull t)) = typeScriptForGraphQLType S k (Some t)"
| "typeScriptForGraphQLType S k (Some (Named n)) =
     (if isObjectType S (Some n) \<or> isInputObjectType S (Some n) then
        (case k of
           0 \<Rightarrow> Inl RangeError
         | Suc k' \<Rightarrow>
            (case getFields S n of
               Inl e \<Rightarrow> Inl e
             | Inr fs \<Rightarrow>
                (case sequence (map (\<lambda>field.
                         case typeScriptForGraphQLType S k' (Some (fieldType field)) of
                           Inl e \<Rightarrow> Inl e
                         | Inr ty \<Rightarrow> Inr (docComment (fieldDescription field)
                                @ [CHR 0x22] @ fieldName field @ [CHR 0x22]
                                @ (if \<not> isNonNullType (Some (fieldType field)) then ''?'' else [])
                                @ '': '' @ toStringJS ty)) fs) of
                   Inl e \<Rightarrow> Inl e
                 | Inr fieldTexts \<Rightarrow> Inr (Str (''{'' @ join '', '' fieldTexts @ ''}'')))))
      else if isEnumType S (Some n) then
        Inr (Str (join '' | '' (map (\<lambda>v. [CHR 0x22] @ v @ [CHR 0x22]) (getValues S n))))
      else
        (let basicType = property scalarMap n
         in Inr (if truthy basicType then basicType else Str ''any'')))"

section \<open>The variable signature builder\<close>

text \<open>
  \<open>typeScriptSignatureForOperationVariables (variableNames, schema, operationDefinition)\<close>.
  The last line of the source compares \<open>types\<close>, the text with its braces, with the empty
  string.
\<close>

definition variableEntry :: "schema \<Rightarrow> nat \<Rightarrow> variableDefinition \<Rightarrow> error + (string \<times> jsv)" where
  "variableEntry S k varDef =
     (case reparse (variableType varDef) of
        Inl e \<Rightarrow> Inl e
      | Inr parsedType \<Rightarrow>
         (case typeScriptForGraphQLType S k (typeFromAST S parsedType) of
            Inl e \<Rightarrow> Inl e
          | Inr tsType \<Rightarrow> Inr (variableName varDef, tsType)))"

definition typeScriptSignatureForOperationVariables ::
  "string list \<Rightarrow> schema \<Rightarrow> nat \<Rightarrow> definitionNode \<Rightarrow> error + string" where
  "typeScriptSignatureForOperationVariables variableNames S k operationDefinition =
     (let variables = filter (\<lambda>v. variableName v \<in> set variableNames)
                        (case variableDefinitions operationDefinition of
                           None \<Rightarrow> [] | Some vs \<Rightarrow> vs)
      in case sequence (map (variableEntry S k) variables) of
           Inl e \<Rightarrow> Inl e
         | Inr typesObject \<Rightarrow>
            (let typeFields = join '', ''
                   (map (\<lambda>(name, tsType). [CHR 0x22] @ name @ [CHR 0x22] @ '': '' @ toStringJS tsType)
                      typesObject);
                 types = ''{'' @ typeFields @ ''}''
             in Inr (if types = [] then ''null'' else types)))"

section \<open>Console output\<close>

text \<open>
  \<open>console.warn\<close> is the only effect of the translator. A computation that may warn and
  may throw returns the warnings it wrote, in order, and its result; the warnings written
  before an exception are kept.
\<close>

type_synonym 'a js = "string list \<times> (error + 'a)"

definition ret :: "'a \<Rightarrow> 'a js" where
  "ret x = ([], Inr x)"

definition throw :: "error \<Rightarrow> 'a js" where
  "throw e = ([], Inl e)"

definition warn :: "string \<Rightarrow> unit js" where
  "warn s = ([s], Inr ())"

definition lift :: "error + 'a \<Rightarrow> 'a js" where
  "lift r = ([], r)"

definition bind :: "'a js \<Rightarrow> ('a \<Rightarrow> 'b js) \<Rightarrow> 'b js" where
  "bind m f =
     (case m of
        (w, Inl e) \<Rightarrow> (w, Inl e)
      | (w, Inr x) \<Rightarrow> (case f x of (w', r) \<Rightarrow> (w @ w', r)))"

section \<open>Counting list wrappers\<close>

definition maximumDepth :: nat where
  "maximumDepth = 30"

definition errorSigil :: int where
  "errorSigil = - 99"

text \<open>
  The loop of \<open>listCount\<close>, with its three variables: the type under inspection, the list
  wrappers seen and the wrappers seen. The guard is tested after the counters are
  incremented and before the step to \<open>ofType\<close>.
\<close>

fun listCountLoop :: "gqltype option \<Rightarrow> int \<Rightarrow> nat \<Rightarrow> int js" where
  "listCountLoop (Some (ListT t)) innerListCount totalCount =
     (if totalCount + 1 > maximumDepth
      then bind (warn ''Bailing on potential infinite recursion'') (\<lambda>_. ret errorSigil)
      else listCountLoop (Some t) (innerListCount + 1) (totalCount + 1))"
| "listCountLoop (Some (NonNull t)) innerListCount totalCount =
     (if totalCount + 1 > maximumDepth
      then bind (warn ''Bailing on potential infinite recursion'') (\<lambda>_. ret errorSigil)
      else listCountLoop (Some t) innerListCount (totalCount + 1))"
| "listCountLoop t innerListCount totalCount = ret innerListCount"

definition listCount :: "gqltype option \<Rightarrow> int js" where
  "listCount gqlType = listCountLoop gqlType 0 0"

section \<open>The shape builder\<close>

text \<open>The scalar table of \<open>typeScriptDefinitionObjectForOperation\<close>, an object literal of
  its own (\<open>scalarMap\<close> in the source too).\<close>

definition shapeScalarMap :: "(string \<times> string) list" where
  "shapeScalarMap =
     [(''String'', ''string''), (''ID'', ''string''), (''Int'', ''number''),
      (''Float'', ''number''), (''Boolean'', ''boolean''), (''GitHubGitObjectID'', ''string'')]"

definition startsWith :: "string \<Rightarrow> string \<Rightarrow> bool" where
  "startsWith s p = (take (length p) s = p)"

text \<open>\<open>gqlType.ofType\<close> of a wrapper.\<close>

fun ofType :: "gqltype option \<Rightarrow> gqltype option" where
  "ofType (Some (ListT t)) = Some t"
| "ofType (Some (NonNull t)) = Some t"
| "ofType _ = None"

text \<open>The \<open>reduce\<close> step of \<open>sub\<close>: an array whose first element is an array is spliced in,
  anything else is appended as one element. (\<open>innerHelper\<close> returns arrays, \<open>undefined\<close> or
  \<open>null\<close> only, and the filter before has removed the last two.)\<close>

fun splice :: "jsv list \<Rightarrow> jsv \<Rightarrow> jsv list" where
  "splice acc (Arr (Arr e # rest)) = acc @ (Arr e # rest)"
| "splice acc next = acc @ [next]"

definition flatten :: "jsv list \<Rightarrow> jsv list" where
  "flatten rs = foldl splice [] (filter truthy rs)"

text \<open>\<open>for (idx = 0; idx < nestingLevel; idx++) finalType = [finalType]\<close>: a negative
  level runs the body no time.\<close>

definition nest :: "int \<Rightarrow> jsv \<Rightarrow> jsv" where
  "nest nestingLevel returnType = ((\<lambda>finalType. Arr [finalType]) ^^ nat nestingLevel) returnType"

definition entry :: "string \<Rightarrow> jsv \<Rightarrow> jsv \<Rightarrow> jsv" where
  "entry displayedName ty description =
     Arr [Str displayedName, Obj [(''type'', ty), (''description'', description)]]"

definition displayName :: "string option \<Rightarrow> string \<Rightarrow> string" where
  "displayName al name = (case al of None \<Rightarrow> name | Some a \<Rightarrow> if a = [] then name else a)"

text \<open>The local constant \<open>isList\<close> of \<open>helper\<close>: the type is a list, or a non-null type
  directly around a list.\<close>

definition isList :: "gqltype option \<Rightarrow> bool" where
  "isList gqlType =
     (let isNullable = \<not> isNonNullType gqlType
      in isListType gqlType \<or> (\<not> isNullable \<and> isListType (ofType gqlType)))"

text \<open>
  The part of \<open>helper\<close> after \<open>sub\<close> is computed: \<open>field\<close> is the descriptor found on the
  parent type (or \<open>undefined\<close>), \<open>sub\<close> the flattened entries of the selection set (or
  \<open>undefined\<close> when the selection has none).
\<close>

definition fieldEntry ::
  "schema \<Rightarrow> string \<Rightarrow> fieldDef option \<Rightarrow> jsv list option \<Rightarrow> jsv js" where
  "fieldEntry S displayedName field sub =
     (let gqlType = map_option fieldType field;
          namedType = getNamedType gqlType;
          isObjectLike = (isObjectType S namedType \<or> isUnionType S namedType
                          \<or> isInterfaceType S namedType)
      in bind (if isList gqlType then listCount gqlType else ret 0) (\<lambda>nestingLevel.
         let isEnum = isEnumType S namedType;
             basicType =
               (if isEnum then newSet (case namedType of None \<Rightarrow> [] | Some n \<Rightarrow> getValues S n)
                else property shapeScalarMap
                       (case namedType of None \<Rightarrow> ''any''
                        | Some n \<Rightarrow> if n = [] then ''any'' else n))
         in bind (if isObjectLike
                  then (case sub of None \<Rightarrow> ret Null | Some es \<Rightarrow> lift (fromEntries es))
                  else if truthy basicType then ret basicType
                  else ret (Str ''any'')) (\<lambda>returnType.
            if truthy returnType
            then ret (entry displayedName (nest nestingLevel returnType)
                        (case Option.bind field fieldDescription of
                           None \<Rightarrow> Undefined | Some d \<Rightarrow> Str d))
            else bind (warn ''No returnType!'') (\<lambda>_. ret Undefined))))"

text \<open>
  \<open>helper (parentGqlType, selection)\<close> and the callback \<open>innerHelper\<close>, which is closed over
  the \<open>namedType\<close> of the \<open>helper\<close> call it was created in. \<open>helper\<close> reads \<open>alias\<close>, \<open>name\<close>
  and \<open>selectionSet\<close> of whatever selection it is given:
  \<^item> an inline fragment has no \<open>name\<close>: \<open>getFields()\<close> or else \<open>name.startsWith\<close> throws;
  \<^item> a fragment spread has a \<open>name\<close> and nothing else: it is treated as a field of that name.

  \<open>F name\<close> is what the lookup \<open>fragmentDefinitions[name]\<close> gives: \<open>undefined\<close>, or an
  object, which is a fragment definition or (a member that the table inherits, say) has no
  \<open>typeCondition\<close>; then \<open>typeFromAST\<close> throws. Expanding a fragment spread follows the
  fragment table and need not end (a fragment may spread itself); each expansion takes
  one unit of fuel.
\<close>

function helper ::
    "schema \<Rightarrow> (string \<Rightarrow> definitionNode option) \<Rightarrow> nat \<Rightarrow> string option \<Rightarrow> selection \<Rightarrow> jsv js"
  and innerHelper ::
    "schema \<Rightarrow> (string \<Rightarrow> definitionNode option) \<Rightarrow> nat \<Rightarrow> string option \<Rightarrow> selection \<Rightarrow> jsv js"
  and helperMap ::
    "schema \<Rightarrow> (string \<Rightarrow> definitionNode option) \<Rightarrow> nat \<Rightarrow> string option \<Rightarrow> selection list
       \<Rightarrow> jsv list js"
  and innerHelperMap ::
    "schema \<Rightarrow> (string \<Rightarrow> definitionNode option) \<Rightarrow> nat \<Rightarrow> string option \<Rightarrow> selection list
       \<Rightarrow> jsv list js"
where
  "helper S F k None selection = ret Undefined"
| "helper S F k (Some parentNamedType) (InlineFragment tc sels) = throw TypeError"
| "helper S F k (Some parentNamedType) (FragmentSpread name) =
     bind (lift (getFields S parentNamedType)) (\<lambda>fs.
       if startsWith name ''__''
       then ret (entry name (Str ''any'') (Str ''Internal GraphQL field''))
       else fieldEntry S name (lookupField fs name) None)"
| "helper S F k (Some parentNamedType) (Field al name args sels) =
     bind (lift (getFields S parentNamedType)) (\<lambda>fs.
       if startsWith name ''__''
       then ret (entry (displayName al name) (Str ''any'') (Str ''Internal GraphQL field''))
       else
         bind (case sels of
                 None \<Rightarrow> ret None
               | Some ss \<Rightarrow>
                   bind (innerHelperMap S F k
                           (getNamedType (map_option fieldType (lookupField fs name))) ss)
                     (\<lambda>rs. ret (Some (flatten rs))))
           (\<lambda>sub. fieldEntry S (displayName al name) (lookupField fs name) sub))"
| "innerHelper S F k namedType (Field al name args sels) =
     helper S F k namedType (Field al name args sels)"
| "innerHelper S F k namedType (InlineFragment tc sels) =
     (case tc of
        None \<Rightarrow> throw TypeError
      | Some t \<Rightarrow>
         (case getType S t of
            None \<Rightarrow> ret Null
          | Some d \<Rightarrow> bind (helperMap S F k (Some t) sels) (\<lambda>rs. ret (Arr rs))))"
| "innerHelper S F k namedType (FragmentSpread name) =
     (case F name of
        None \<Rightarrow> ret Null
      | Some fragment \<Rightarrow>
         (case typeCondition fragment of
            None \<Rightarrow> throw TypeError
          | Some t \<Rightarrow>
             (case getType S t of
                None \<Rightarrow> ret Null
              | Some d \<Rightarrow>
                 (case selectionSet fragment of
                    None \<Rightarrow> throw TypeError
                  | Some ss \<Rightarrow>
                     (case k of
                        0 \<Rightarrow> throw RangeError
                      | Suc k' \<Rightarrow>
                         bind (innerHelperMap S F k' namedType ss) (\<lambda>rs. ret (Arr rs)))))))"
| "helperMap S F k parent [] = ret []"
| "helperMap S F k parent (s # ss) =
     bind (helper S F k parent s) (\<lambda>r. bind (helperMap S F k parent ss) (\<lambda>rs. ret (r # rs)))"
| "innerHelperMap S F k namedType [] = ret []"
| "innerHelperMap S F k namedType (s # ss) =
     bind (innerHelper S F k namedType s) (\<lambda>r.
       bind (innerHelperMap S F k namedType ss) (\<lambda>rs. ret (r # rs)))"
  by pat_completeness auto
termination
  by (relation "inv_image (less_than <*lex*> less_than <*lex*> less_than)
       (\<lambda>x. case x of
           Inl (Inl (S, F, k, p, s)) \<Rightarrow> (k, size s, 0::nat)
         | Inl (Inr (S, F, k, p, s)) \<Rightarrow> (k, size s, 1)
         | Inr (Inl (S, F, k, p, ss)) \<Rightarrow> (k, size_list size ss, 0)
         | Inr (Inr (S, F, k, p, ss)) \<Rightarrow> (k, size_list size ss, 0))") auto

text \<open>The root type of the definition: \<open>baseGqlType\<close>.\<close>

definition baseGqlType :: "schema \<Rightarrow> definitionNode \<Rightarrow> error + string option" where
  "baseGqlType S operationDefinition =
     (if kind operationDefinition = OperationDefinition then
        (case operation operationDefinition of
           Some Query \<Rightarrow> Inr (queryType S)
         | Some Mutation \<Rightarrow> Inr (mutationType S)
         | Some Subscription \<Rightarrow> Inr (subscriptionType S)
         | None \<Rightarrow> Inr None)
      else if kind operationDefinition = FragmentDefinition then
        (case typeCondition operationDefinition of
           None \<Rightarrow> Inl TypeError
         | Some t \<Rightarrow> Inr (case getType S t of None \<Rightarrow> None | Some d \<Rightarrow> Some t))
      else Inr None)"

definition dataDescription :: string where
  "dataDescription = ''Any data retrieved by the const function be returned here''"

definition errorsDescription :: string where
  "errorsDescription = ''Any errors in the function will be returned here''"

definition envelope :: "jsv \<Rightarrow> jsv" where
  "envelope ty =
     Obj [(''data'', Obj [(''type'', ty), (''description'', Str dataDescription)]),
          (''errors'', Obj [(''type'', Arr [Str ''any'']),
                           (''description'', Str errorsDescription)])]"

text \<open>\<open>typeScriptDefinitionObjectForOperation (schema, operationDefinition,
  fragmentDefinitions)\<close>. The results of \<open>helper\<close> go to \<open>Object.fromEntries\<close> as they are.\<close>

definition typeScriptDefinitionObjectForOperation ::
  "schema \<Rightarrow> definitionNode \<Rightarrow> (string \<Rightarrow> definitionNode option) \<Rightarrow> nat \<Rightarrow> jsv js" where
  "typeScriptDefinitionObjectForOperation S operationDefinition F k =
     bind (lift (baseGqlType S operationDefinition)) (\<lambda>base.
       case selectionSet operationDefinition of
         None \<Rightarrow> ret (envelope (Str ''any''))
       | Some selections \<Rightarrow>
           bind (helperMap S F k base selections) (\<lambda>sub.
             bind (lift (fromEntries sub)) (\<lambda>object. ret (envelope object))))"

section \<open>The variable list of a definition\<close>

text \<open>
  \<open>gatherVariableDefinitions (definition)\<close> sorts the pairs with
  \<open>left.localeCompare(right)\<close> on their first components. \<open>Array.prototype.sort\<close> is a
  stable sort; the collation of the host, a total preorder on strings, is the parameter
  \<open>localeCompare\<close>. The definition itself may be \<open>undefined\<close>.
\<close>

definition extractVariableNameStringPair :: "variableDefinition \<Rightarrow> string \<times> string" where
  "extractVariableNameStringPair varDef = (variableName varDef, printType (variableType varDef))"

definition gatherVariableDefinitions ::
  "string comparator \<Rightarrow> definitionNode option \<Rightarrow> (string \<times> string) list" where
  "gatherVariableDefinitions localeCompare d =
     Sorting_Algorithms.sort (key fst localeCompare)
       (case Option.bind d variableDefinitions of
          None \<Rightarrow> []
        | Some vs \<Rightarrow> map extractVariableNameStringPair vs)"

section \<open>The webhook patchers\<close>

text \<open>
  \<open>patchSubscriptionWebhookField\<close> and \<open>patchSubscriptionWebhookSecretField\<close> are the same
  text but for four constants: the name of the argument looked for, the argument added,
  the name of the variable looked for and the variable definition added. \<open>patchSelection\<close>
  is the callback of \<open>selections.map\<close> and \<open>patchDefinition\<close> the body of the function,
  both with these constants as parameters.
\<close>

definition webhookUrlArgument :: argument where
  "webhookUrlArgument =
     \<lparr>argumentName = ''webhookUrl'', argumentValue = Variable ''netligraphWebhookUrl''\<rparr>"

definition webhookUrlVariable :: variableDefinition where
  "webhookUrlVariable =
     \<lparr>variableName = ''netligraphWebhookUrl'', variableType = NonNullType (NamedType ''String'')\<rparr>"

definition webhookSecretArgument :: argument where
  "webhookSecretArgument =
     \<lparr>argumentName = ''secret'', argumentValue = Variable ''netligraphWebhookSecret''\<rparr>"

definition webhookSecretVariable :: variableDefinition where
  "webhookSecretVariable =
     \<lparr>variableName = ''netligraphWebhookSecret'',
      variableType = NonNullType (NamedType ''OneGraphSubscriptionSecretInput'')\<rparr>"

text \<open>\<open>selection.arguments?.some (arg => arg.name.value === argName)\<close>, \<open>undefined\<close> read as
  false.\<close>

definition selectionHasArg :: "argument list option \<Rightarrow> string \<Rightarrow> bool" where
  "selectionHasArg args argName =
     (case args of None \<Rightarrow> False | Some as \<Rightarrow> list_ex (\<lambda>arg. argumentName arg = argName) as)"

text \<open>The callback: \<open>field\<close> is read from the subscription type without a test, so
  \<open>field.args\<close> throws when the type has no field of the selection's name.\<close>

fun patchSelection :: "schema \<Rightarrow> string \<Rightarrow> argument \<Rightarrow> selection \<Rightarrow> error + selection" where
  "patchSelection S subscriptionTypeName newArg (Field al name args sels) =
     (case getFields S subscriptionTypeName of
        Inl e \<Rightarrow> Inl e
      | Inr fs \<Rightarrow>
         (case lookupField fs name of
            None \<Rightarrow> Inl TypeError
          | Some field \<Rightarrow>
             (if list_ex (\<lambda>arg. arg = argumentName newArg) (fieldArgs field)
                 \<and> \<not> selectionHasArg args (argumentName newArg)
              then Inr (Field al name
                          (Some ((case args of None \<Rightarrow> [] | Some as \<Rightarrow> as) @ [newArg])) sels)
              else Inr (Field al name args sels))))"
| "patchSelection S subscriptionTypeName newArg selection = Inr selection"

definition patchDefinition ::
  "argument \<Rightarrow> variableDefinition \<Rightarrow> schema \<Rightarrow> definitionNode \<Rightarrow> error + definitionNode" where
  "patchDefinition newArg newVar S d =
     (if operation d \<noteq> Some Subscription then Inr d
      else case subscriptionType S of
        None \<Rightarrow> Inr d
      | Some subscriptionTypeName \<Rightarrow>
         (case selectionSet d of
            None \<Rightarrow> Inl TypeError
          | Some selections \<Rightarrow>
             (case sequence (map (patchSelection S subscriptionTypeName newArg) selections) of
                Inl e \<Rightarrow> Inl e
              | Inr newSelections \<Rightarrow>
                 (let hasWebhookVariableDefinition =
                        (case variableDefinitions d of
                           None \<Rightarrow> False
                         | Some vs \<Rightarrow> list_ex (\<lambda>v. variableName v = variableName newVar) vs);
                      newVariableDefinitions =
                        (if hasWebhookVariableDefinition then variableDefinitions d
                         else Some ((case variableDefinitions d of None \<Rightarrow> [] | Some vs \<Rightarrow> vs)
                                    @ [newVar]))
                  in Inr (d\<lparr>variableDefinitions := newVariableDefinitions,
                            selectionSet := Some newSelections\<rparr>)))))"

definition patchSubscriptionWebhookField :: "schema \<Rightarrow> definitionNode \<Rightarrow> error + definitionNode" where
  "patchSubscriptionWebhookField S d = patchDefinition webhookUrlArgument webhookUrlVariable S d"

definition patchSubscriptionWebhookSecretField ::
  "schema \<Rightarrow> definitionNode \<Rightarrow> error + definitionNode" where
  "patchSubscriptionWebhookSecretField S d =
     patchDefinition webhookSecretArgument webhookSecretVariable S d"

text \<open>\<open>namesField fs selection\<close>: a field selection names a field of the list \<open>fs\<close>; a
  selection of another kind asks nothing.\<close>

fun namesField :: "fieldDef list \<Rightarrow> selection \<Rightarrow> bool" where
  "namesField fs (Field al name args sels) = (lookupField fs name \<noteq> None)"
| "namesField fs selection = True"

section \<open>The webhook patchers on a store\<close>

text \<open>
  Whether a patcher changes its input is a question about objects, not values. Here the
  nodes of the document are objects in a store: a reference is a position in the list of
  objects, and \<open>alloc\<close> puts a new object at the end. A definition, a selection set and
  a field hold references to their arrays and selection sets; arguments and variable
  definitions are kept whole, since no patcher reads below them.

  The source creates objects with array and object literals, with spread syntax and
  with \<open>Array.prototype.map\<close>, each of which makes a new object, and assigns to no
  property of an object it was given. The functions below follow it statement by
  statement; the store they return also holds what was created before an exception.
\<close>

type_synonym ref = nat

datatype obj =
    DefinitionObj definitionKind "operationKind option" "string option" "ref option" "ref option"
  | SelectionSetObj ref
  | ArrayObj "ref list"
  | FieldObj "string option" string "ref option" "ref option"
  | InlineFragmentObj "string option" ref
  | FragmentSpreadObj string
  | ArgumentObj argument
  | VariableDefinitionObj variableDefinition

type_synonym store = "obj list"

definition deref :: "store \<Rightarrow> ref \<Rightarrow> obj option" where
  "deref h r = (if r < length h then Some (h ! r) else None)"

definition alloc :: "store \<Rightarrow> obj \<Rightarrow> store \<times> ref" where
  "alloc h ob = (h @ [ob], length h)"

text \<open>\<open>extends h h'\<close>: every object of \<open>h\<close> is in \<open>h'\<close>, under the same reference and with
  the same contents.\<close>

definition extends :: "store \<Rightarrow> store \<Rightarrow> bool" where
  "extends h h' = (take (length h) h' = h)"

text \<open>The elements of an array property that may be absent (\<open>x || []\<close>), and the names
  found in an array of arguments or of variable definitions.\<close>

definition elements :: "store \<Rightarrow> ref option \<Rightarrow> ref list" where
  "elements h a =
     (case a of
        None \<Rightarrow> []
      | Some r \<Rightarrow> (case deref h r of Some (ArrayObj rs) \<Rightarrow> rs | _ \<Rightarrow> []))"

definition argumentNames :: "store \<Rightarrow> ref option \<Rightarrow> string list" where
  "argumentNames h a =
     concat (map (\<lambda>r. case deref h r of Some (ArgumentObj arg) \<Rightarrow> [argumentName arg] | _ \<Rightarrow> [])
               (elements h a))"

definition variableNames :: "store \<Rightarrow> ref option \<Rightarrow> string list" where
  "variableNames h a =
     concat (map (\<lambda>r. case deref h r of
                         Some (VariableDefinitionObj v) \<Rightarrow> [variableName v] | _ \<Rightarrow> [])
               (elements h a))"

text \<open>The callback of \<open>selections.map\<close>: a selection that is left alone is returned as
  the reference it came as.\<close>

definition patchSelectionOnStore ::
  "schema \<Rightarrow> string \<Rightarrow> argument \<Rightarrow> store \<Rightarrow> ref \<Rightarrow> store \<times> (error + ref)" where
  "patchSelectionOnStore S subscriptionTypeName newArg h selection =
     (case deref h selection of
        Some (FieldObj al name args sels) \<Rightarrow>
          (case getFields S subscriptionTypeName of
             Inl e \<Rightarrow> (h, Inl e)
           | Inr fs \<Rightarrow>
              (case lookupField fs name of
                 None \<Rightarrow> (h, Inl TypeError)
               | Some field \<Rightarrow>
                  (if list_ex (\<lambda>arg. arg = argumentName newArg) (fieldArgs field)
                      \<and> \<not> list_ex (\<lambda>n. n = argumentName newArg) (argumentNames h args)
                   then (let (h1, argument) = alloc h (ArgumentObj newArg);
                             (h2, arguments) = alloc h1 (ArrayObj (elements h args @ [argument]));
                             (h3, patched) = alloc h2 (FieldObj al name (Some arguments) sels)
                         in (h3, Inr patched))
                   else (h, Inr selection))))
      | Some other \<Rightarrow> (h, Inr selection)
      | None \<Rightarrow> (h, Inl TypeError))"

text \<open>\<open>Array.prototype.map\<close> with a callback that works on the store.\<close>

fun mapOnStore ::
  "(store \<Rightarrow> ref \<Rightarrow> store \<times> (error + ref)) \<Rightarrow> store \<Rightarrow> ref list
     \<Rightarrow> store \<times> (error + ref list)" where
  "mapOnStore f h [] = (h, Inr [])"
| "mapOnStore f h (r # rs) =
     (case f h r of
        (h1, Inl e) \<Rightarrow> (h1, Inl e)
      | (h1, Inr r') \<Rightarrow>
         (case mapOnStore f h1 rs of
            (h2, Inl e) \<Rightarrow> (h2, Inl e)
          | (h2, Inr rs') \<Rightarrow> (h2, Inr (r' # rs'))))"

definition patchDefinitionOnStore ::
  "argument \<Rightarrow> variableDefinition \<Rightarrow> schema \<Rightarrow> store \<Rightarrow> ref \<Rightarrow> store \<times> (error + ref)" where
  "patchDefinitionOnStore newArg newVar S h d =
     (case deref h d of
        Some (DefinitionObj k op tc vds ss) \<Rightarrow>
          (if op \<noteq> Some Subscription then (h, Inr d)
           else case subscriptionType S of
             None \<Rightarrow> (h, Inr d)
           | Some subscriptionTypeName \<Rightarrow>
              (case Option.bind ss (deref h) of
                 Some (SelectionSetObj selections) \<Rightarrow>
                   (case mapOnStore (patchSelectionOnStore S subscriptionTypeName newArg) h
                           (elements h (Some selections)) of
                      (h1, Inl e) \<Rightarrow> (h1, Inl e)
                    | (h1, Inr rs) \<Rightarrow>
                       (let (h2, newSelections) = alloc h1 (ArrayObj rs);
                            (h3, newVariableDefinitions) =
                               (if list_ex (\<lambda>n. n = variableName newVar) (variableNames h2 vds)
                                then (h2, vds)
                                else (let (ha, v) = alloc h2 (VariableDefinitionObj newVar);
                                          (hb, vs) = alloc ha (ArrayObj (elements h2 vds @ [v]))
                                      in (hb, Some vs)));
                            (h4, newSelectionSet) = alloc h3 (SelectionSetObj newSelections);
                            (h5, patched) =
                               alloc h4 (DefinitionObj k op tc newVariableDefinitions
                                           (Some newSelectionSet))
                        in (h5, Inr patched)))
               | _ \<Rightarrow> (h, Inl TypeError)))
      | _ \<Rightarrow> (h, Inl TypeError))"

definition patchSubscriptionWebhookFieldOnStore ::
  "schema \<Rightarrow> store \<Rightarrow> ref \<Rightarrow> store \<times> (error + ref)" where
  "patchSubscriptionWebhookFieldOnStore S h d =
     patchDefinitionOnStore webhookUrlArgument webhookUrlVariable S h d"

definition patchSubscriptionWebhookSecretFieldOnStore ::
  "schema \<Rightarrow> store \<Rightarrow> ref \<Rightarrow> store \<times> (error + ref)" where
  "patchSubscriptionWebhookSecretFieldOnStore S h d =
     patchDefinitionOnStore webhookSecretArgument webhookSecretVariable S h d"

text \<open>
  The value of a node in a store: \<open>readDefinition nested h d\<close> is the definition that the
  object at \<open>d\<close> and the objects it refers to stand for, if they are what a document has
  at these places (\<open>None\<close> otherwise). No patcher reads the selection set below a
  selection; \<open>nested\<close> gives its value for a reference.
\<close>

definition readArgument :: "store \<Rightarrow> ref \<Rightarrow> argument option" where
  "readArgument h r = (case deref h r of Some (ArgumentObj a) \<Rightarrow> Some a | _ \<Rightarrow> None)"

definition readVariable :: "store \<Rightarrow> ref \<Rightarrow> variableDefinition option" where
  "readVariable h r = (case deref h r of Some (VariableDefinitionObj v) \<Rightarrow> Some v | _ \<Rightarrow> None)"

definition readArray :: "(store \<Rightarrow> ref \<Rightarrow> 'a option) \<Rightarrow> store \<Rightarrow> ref option \<Rightarrow> 'a list option option" where
  "readArray rd h a =
     (case a of
        None \<Rightarrow> Some None
      | Some r \<Rightarrow>
         (case deref h r of
            Some (ArrayObj rs) \<Rightarrow> map_option Some (those (map (rd h) rs))
          | _ \<Rightarrow> None))"

definition readSelection :: "(ref \<Rightarrow> selection list) \<Rightarrow> store \<Rightarrow> ref \<Rightarrow> selection option" where
  "readSelection nested h r =
     (case deref h r of
        Some (FieldObj al name args sels) \<Rightarrow>
          map_option (\<lambda>as. Field al name as (map_option nested sels))
            (readArray readArgument h args)
      | Some (InlineFragmentObj tc sels) \<Rightarrow> Some (InlineFragment tc (nested sels))
      | Some (FragmentSpreadObj name) \<Rightarrow> Some (FragmentSpread name)
      | _ \<Rightarrow> None)"

definition readDefinition :: "(ref \<Rightarrow> selection list) \<Rightarrow> store \<Rightarrow> ref \<Rightarrow> definitionNode option" where
  "readDefinition nested h d =
     (case deref h d of
        Some (DefinitionObj k op tc vds ss) \<Rightarrow>
          (case readArray readVariable h vds of
             None \<Rightarrow> None
           | Some vs \<Rightarrow>
              (case ss of
                 None \<Rightarrow> Some \<lparr>kind = k, operation = op, typeCondition = tc,
                               variableDefinitions = vs, selectionSet = None\<rparr>
               | Some r \<Rightarrow>
                  (case deref h r of
                     Some (SelectionSetObj selections) \<Rightarrow>
                       (case readArray (readSelection nested) h (Some selections) of
                          Some (Some sels) \<Rightarrow>
                            Some \<lparr>kind = k, operation = op, typeCondition = tc,
                                  variableDefinitions = vs, selectionSet = Some sels\<rparr>
                        | _ \<Rightarrow> None)
                   | _ \<Rightarrow> None)))
      | _ \<Rightarrow> None)"

section \<open>The collector of referenced types\<close>

text \<open>
  \<open>name.toLocaleLowerCase()\<close> on a GraphQL name (letters, digits and the underscore, all
  ASCII), under a locale without casing rules of its own for these letters: \<open>A\<close> to \<open>Z\<close>
  become \<open>a\<close> to \<open>z\<close>.
\<close>

definition toLowerCase :: "string \<Rightarrow> string" where
  "toLowerCase s =
     map (\<lambda>c. let n = (of_char c :: nat) in if 65 \<le> n \<and> n \<le> 90 then char_of (n + 32) else c) s"

text \<open>\<open>s.replace (pattern, replacement)\<close> with a string for the pattern: the first
  occurrence of the pattern is replaced, and no other.\<close>

fun replaceFirst :: "string \<Rightarrow> string \<Rightarrow> string \<Rightarrow> string" where
  "replaceFirst pattern replacement [] = (if pattern = [] then replacement else [])"
| "replaceFirst pattern replacement (c # cs) =
     (if take (length pattern) (c # cs) = pattern
      then replacement @ drop (length pattern) (c # cs)
      else c # replaceFirst pattern replacement cs)"

definition normalise :: "string \<Rightarrow> string" where
  "normalise name = replaceFirst ''oneme'' [] (toLowerCase name)"

text \<open>
  The traversal and the type information are the graphql library's \<open>visit\<close>,
  \<open>visitWithTypeInfo\<close> and \<open>TypeInfo\<close>. The visitor calls \<open>enter\<close> at every node of the
  document, and \<open>typeInfo.getType()\<close> is the top of the library's stack of output types,
  which is pushed:
  \<^item> at an operation definition, with the root type of the operation (if it is an object
    type), else \<open>undefined\<close>;
  \<^item> at a field, with the type of the field of that name on the parent type (the named
    composite type of what was on top at the enclosing selection set), or that of a meta
    field \<open>__schema\<close>, \<open>__type\<close>, \<open>__typename\<close>, if it is an output type, else \<open>undefined\<close>;
  \<^item> at an inline fragment and at a fragment definition, with the type of the type
    condition (without one, the named type on top), if it is an output type;
  and popped on leaving these nodes. No other node changes it: at a name, an argument, a
  directive, a variable definition and its type, a selection set or a fragment spread,
  \<open>getType()\<close> is what it was at the enclosing node. The types of variable definitions
  and arguments go to another stack (\<open>getInputType()\<close>), which the collector does not
  read. At the document node the stack is empty.

  \<open>typesInContext\<close> lists what \<open>getType()\<close> returns at the document node and at the
  definitions, fields, inline fragments and fragment spreads, in the order of the
  traversal; the nodes left out repeat the value of a node listed before them.
\<close>

definition isOutputType :: "schema \<Rightarrow> gqltype option \<Rightarrow> bool" where
  "isOutputType S t = (case t of None \<Rightarrow> False | Some u \<Rightarrow> \<not> isInputObjectType S (Some (namedOf u)))"

definition outputOnly :: "schema \<Rightarrow> gqltype option \<Rightarrow> gqltype option" where
  "outputOnly S t = (if isOutputType S t then t else None)"

definition compositeParent :: "schema \<Rightarrow> gqltype option \<Rightarrow> string option" where
  "compositeParent S t =
     (let namedType = getNamedType t
      in if isObjectType S namedType \<or> isInterfaceType S namedType \<or> isUnionType S namedType
         then namedType else None)"

definition getFieldDef :: "schema \<Rightarrow> string \<Rightarrow> string \<Rightarrow> gqltype option" where
  "getFieldDef S parentType name =
     (if name = ''__schema'' \<and> queryType S = Some parentType then Some (NonNull (Named ''__Schema''))
      else if name = ''__type'' \<and> queryType S = Some parentType then Some (Named ''__Type'')
      else if name = ''__typename'' \<and> compositeParent S (Some (Named parentType)) \<noteq> None
      then Some (NonNull (Named ''String''))
      else if isObjectType S (Some parentType) \<or> isInterfaceType S (Some parentType)
      then (case getFields S parentType of
              Inl e \<Rightarrow> None
            | Inr fs \<Rightarrow> map_option fieldType (lookupField fs name))
      else None)"

fun typesAtSelection :: "schema \<Rightarrow> gqltype option \<Rightarrow> string option \<Rightarrow> selection \<Rightarrow> gqltype option list" where
  "typesAtSelection S current parentType (Field al name args sels) =
     (let ty = outputOnly S (Option.bind parentType (\<lambda>p. getFieldDef S p name))
      in ty # (case sels of
                 None \<Rightarrow> []
               | Some ss \<Rightarrow> concat (map (typesAtSelection S ty (compositeParent S ty)) ss)))"
| "typesAtSelection S current parentType (InlineFragment tc ss) =
     (let ty = outputOnly S
                 (case tc of
                    Some t \<Rightarrow> typeFromAST S (NamedType t)
                  | None \<Rightarrow> map_option Named (getNamedType current))
      in ty # concat (map (typesAtSelection S ty (compositeParent S ty)) ss))"
| "typesAtSelection S current parentType (FragmentSpread name) = [current]"

definition typesAtDefinition :: "schema \<Rightarrow> definitionNode \<Rightarrow> gqltype option list" where
  "typesAtDefinition S d =
     (if kind d = OperationDefinition then
        (let rootType = (case operation d of
                           Some Query \<Rightarrow> queryType S
                         | Some Mutation \<Rightarrow> mutationType S
                         | Some Subscription \<Rightarrow> subscriptionType S
                         | None \<Rightarrow> None);
             ty = (if isObjectType S rootType then map_option Named rootType else None)
         in ty # (case selectionSet d of
                    None \<Rightarrow> []
                  | Some ss \<Rightarrow> concat (map (typesAtSelection S ty (compositeParent S ty)) ss)))
      else if kind d = FragmentDefinition then
        (let ty = outputOnly S
                    (case typeCondition d of
                       Some t \<Rightarrow> typeFromAST S (NamedType t)
                     | None \<Rightarrow> None)
         in ty # (case selectionSet d of
                    None \<Rightarrow> []
                  | Some ss \<Rightarrow> concat (map (typesAtSelection S ty (compositeParent S ty)) ss)))
      else [None])"

definition typesInContext :: "schema \<Rightarrow> definitionNode list \<Rightarrow> gqltype option list" where
  "typesInContext S document = None # concat (map (typesAtDefinition S) document)"

text \<open>
  \<open>gatherAllReferencedTypes (schema, query)\<close>: the callback adds the normalised name of
  the named type to a \<open>Set\<close>, which keeps each string once, at its first place; the
  result is the array \<open>[...types]\<close>.
\<close>

definition addType :: "string list \<Rightarrow> gqltype option \<Rightarrow> string list" where
  "addType types fullType =
     (case fullType of
        None \<Rightarrow> types
      | Some t \<Rightarrow> (let name = normalise (namedOf t)
                   in if name \<in> set types then types else types @ [name]))"

definition gatherAllReferencedTypes :: "schema \<Rightarrow> definitionNode list \<Rightarrow> string list" where
  "gatherAllReferencedTypes S query = foldl addType [] (typesInContext S query)"

section \<open>Measures of a type\<close>

text \<open>The number of list wrappers of a type, and the number of all its wrappers.\<close>

fun listWrappers :: "gqltype \<Rightarrow> nat" where
  "listWrappers (Named n) = 0"
| "listWrappers (ListT t) = Suc (listWrappers t)"
| "listWrappers (NonNull t) = listWrappers t"

fun wrappers :: "gqltype \<Rightarrow> nat" where
  "wrappers (Named n) = 0"
| "wrappers (ListT t) = Suc (wrappers t)"
| "wrappers (NonNull t) = Suc (wrappers t)"

text \<open>The name at the bottom of a type node.\<close>

fun nodeName :: "typeNode \<Rightarrow> string" where
  "nodeName (NamedType n) = n"
| "nodeName (ListType t) = nodeName t"
| "nodeName (NonNullType t) = nodeName t"

text \<open>\<open>n\<close> layers of \<open>Array<...>\<close> around a type expression.\<close>

definition arrayOf :: "nat \<Rightarrow> jsv \<Rightarrow> jsv" where
  "arrayOf n v = ((\<lambda>subType. Str (''Array<'' @ toStringJS subType @ ''>'')) ^^ n) v"

text \<open>An entry \<open>[name, {type, description}]\<close> with its \<open>type\<close> inside \<open>n\<close> one-element arrays;
  anything that is not an entry is left as it is.\<close>

definition nestEntry :: "int \<Rightarrow> jsv \<Rightarrow> jsv" where
  "nestEntry n e =
     (case e of
        Arr [name, Obj [(tk, ty), descr]] \<Rightarrow> Arr [name, Obj [(tk, nest n ty), descr]]
      | r \<Rightarrow> r)"

section \<open>Example schemas and documents\<close>

text \<open>
  A schema with three scalars, an object type \<open>Item { id: ID }\<close>, a query root
  \<open>{ field: String, matrix: [[Int!]!], plain: Item, deep: [[...[Item]...]] }\<close> whose field
  \<open>deep\<close> has 31 list wrappers, and a subscription root
  \<open>{ onItemChanged (webhookUrl: String): Item }\<close>. It has no mutation root.
\<close>

definition matrixType :: gqltype where
  "matrixType = ListT (NonNull (ListT (NonNull (Named ''Int''))))"

definition deepType :: gqltype where
  "deepType = (ListT ^^ 31) (Named ''Item'')"

definition queryFields :: "fieldDef list" where
  "queryFields =
     [\<lparr>fieldName = ''field'', fieldType = Named ''String'',
       fieldDescription = None, fieldArgs = []\<rparr>,
      \<lparr>fieldName = ''matrix'', fieldType = matrixType,
       fieldDescription = None, fieldArgs = []\<rparr>,
      \<lparr>fieldName = ''plain'', fieldType = Named ''Item'',
       fieldDescription = None, fieldArgs = []\<rparr>,
      \<lparr>fieldName = ''deep'', fieldType = deepType,
       fieldDescription = None, fieldArgs = []\<rparr>]"

definition itemSchema :: schema where
  "itemSchema =
     \<lparr>typeMap =
        [(''Query'', ObjectType queryFields),
         (''Subscription'', ObjectType
            [\<lparr>fieldName = ''onItemChanged'', fieldType = Named ''Item'',
              fieldDescription = None, fieldArgs = [''webhookUrl'']\<rparr>]),
         (''Item'', ObjectType
            [\<lparr>fieldName = ''id'', fieldType = Named ''ID'',
              fieldDescription = None, fieldArgs = []\<rparr>]),
         (''String'', ScalarType), (''Int'', ScalarType), (''ID'', ScalarType)],
      queryType = Some ''Query'',
      mutationType = None,
      subscriptionType = Some ''Subscription''\<rparr>"

text \<open>\<open>query Q ($a: Int, $b: String) { field }\<close>\<close>

definition queryQ :: definitionNode where
  "queryQ =
     \<lparr>kind = OperationDefinition, operation = Some Query, typeCondition = None,
      variableDefinitions =
        Some [\<lparr>variableName = ''a'', variableType = NamedType ''Int''\<rparr>,
              \<lparr>variableName = ''b'', variableType = NamedType ''String''\<rparr>],
      selectionSet = Some [Field None ''field'' (Some []) None]\<rparr>"

text \<open>\<open>subscription { onItemChanged { id } }\<close>, and the same after patching:
  \<open>subscription ($netligraphWebhookUrl: String!)
     { onItemChanged (webhookUrl: $netligraphWebhookUrl) { id } }\<close>\<close>

definition itemSubscription :: definitionNode where
  "itemSubscription =
     \<lparr>kind = OperationDefinition, operation = Some Subscription, typeCondition = None,
      variableDefinitions = Some [],
      selectionSet = Some [Field None ''onItemChanged'' (Some [])
                             (Some [Field None ''id'' (Some []) None])]\<rparr>"

definition itemSubscriptionPatched :: definitionNode where
  "itemSubscriptionPatched =
     \<lparr>kind = OperationDefinition, operation = Some Subscription, typeCondition = None,
      variableDefinitions =
        Some [\<lparr>variableName = ''netligraphWebhookUrl'',
               variableType = NonNullType (NamedType ''String'')\<rparr>],
      selectionSet =
        Some [Field None ''onItemChanged''
                (Some [\<lparr>argumentName = ''webhookUrl'',
                        argumentValue = Variable ''netligraphWebhookUrl''\<rparr>])
                (Some [Field None ''id'' (Some []) None])]\<rparr>"

text \<open>\<open>subscription { onItemRemoved { id } }\<close>: the subscription root has no such field.\<close>

definition strangerSubscription :: definitionNode where
  "strangerSubscription =
     \<lparr>kind = OperationDefinition, operation = Some Subscription, typeCondition = None,
      variableDefinitions = Some [],
      selectionSet = Some [Field None ''onItemRemoved'' (Some [])
                             (Some [Field None ''id'' (Some []) None])]\<rparr>"

text \<open>An operation without variables, and four of them: \<open>mutation { doIt }\<close>,
  \<open>query { matrix }\<close>, \<open>query { deep { id } }\<close> and \<open>query { plain { id } }\<close>.\<close>

definition operationNode :: "operationKind \<Rightarrow> selection list \<Rightarrow> definitionNode" where
  "operationNode k sels =
     \<lparr>kind = OperationDefinition, operation = Some k, typeCondition = None,
      variableDefinitions = Some [], selectionSet = Some sels\<rparr>"

definition mutationDoIt :: definitionNode where
  "mutationDoIt = operationNode Mutation [Field None ''doIt'' (Some []) None]"

definition queryMatrix :: definitionNode where
  "queryMatrix = operationNode Query [Field None ''matrix'' (Some []) None]"

definition queryDeep :: definitionNode where
  "queryDeep = operationNode Query
     [Field None ''deep'' (Some []) (Some [Field None ''id'' (Some []) None])]"

definition queryPlain :: definitionNode where
  "queryPlain = operationNode Query
     [Field None ''plain'' (Some []) (Some [Field None ''id'' (Some []) None])]"

text \<open>\<open>query { field matrix }\<close> and \<open>query { field deep { id } plain { id } }\<close>.\<close>

definition queryFieldMatrix :: definitionNode where
  "queryFieldMatrix = operationNode Query
     [Field None ''field'' (Some []) None, Field None ''matrix'' (Some []) None]"

definition queryAroundDeep :: definitionNode where
  "queryAroundDeep = operationNode Query
     [Field None ''field'' (Some []) None,
      Field None ''deep'' (Some []) (Some [Field None ''id'' (Some []) None]),
      Field None ''plain'' (Some []) (Some [Field None ''id'' (Some []) None])]"

text \<open>Two stores: \<open>query { field }\<close> and \<open>subscription { onItemChanged }\<close>, each with its
  definition at reference 3.\<close>

definition queryStore :: store where
  "queryStore =
     [FieldObj None ''field'' None None,
      ArrayObj [0],
      SelectionSetObj 1,
      DefinitionObj OperationDefinition (Some Query) None None (Some 2)]"

definition subscriptionStore :: store where
  "subscriptionStore =
     [FieldObj None ''onItemChanged'' None None,
      ArrayObj [0],
      SelectionSetObj 1,
      DefinitionObj OperationDefinition (Some Subscription) None None (Some 2)]"

text \<open>\<open>query { plain { ...ItemParts } }\<close> and \<open>fragment ItemParts on Item { id }\<close>.\<close>

definition queryWithSpread :: definitionNode where
  "queryWithSpread = operationNode Query
     [Field None ''plain'' (Some []) (Some [FragmentSpread ''ItemParts''])]"

definition fragmentItemParts :: definitionNode where
  "fragmentItemParts =
     \<lparr>kind = FragmentDefinition, operation = None, typeCondition = Some ''Item'',
      variableDefinitions = None,
      selectionSet = Some [Field None ''id'' (Some []) None]\<rparr>"

text \<open>
  A schema with an input object type that refers to itself,
  \<open>input Filter { and: [Filter] }\<close>, and the root \<open>Query { a (f: Filter): String }\<close>; the
  operation \<open>query ($f: Filter) { a (f: $f) }\<close>.
\<close>

definition filterSchema :: schema where
  "filterSchema =
     \<lparr>typeMap =
        [(''Query'', ObjectType
            [\<lparr>fieldName = ''a'', fieldType = Named ''String'',
              fieldDescription = None, fieldArgs = [''f'']\<rparr>]),
         (''Filter'', InputObjectType
            [\<lparr>fieldName = ''and'', fieldType = ListT (Named ''Filter''),
              fieldDescription = None, fieldArgs = []\<rparr>]),
         (''String'', ScalarType)],
      queryType = Some ''Query'',
      mutationType = None,
      subscriptionType = None\<rparr>"

definition queryFilter :: definitionNode where
  "queryFilter =
     \<lparr>kind = OperationDefinition, operation = Some Query, typeCondition = None,
      variableDefinitions = Some [\<lparr>variableName = ''f'', variableType = NamedType ''Filter''\<rparr>],
      selectionSet =
        Some [Field None ''a''
                (Some [\<lparr>argumentName = ''f'', argumentValue = Variable ''f''\<rparr>]) None]\<rparr>"

text \<open>A collation for the examples: the order of the code units.\<close>

definition codeUnitOrder :: "string comparator" where
  "codeUnitOrder = default"

section \<open>Auxiliary facts\<close>

lemma sequence_map_Inr:
  "(\<And>x. x \<in> set xs \<Longrightarrow> f x = Inr (g x)) \<Longrightarrow> sequence (map f xs) = Inr (map g xs)"
  by (induction xs) auto

lemma sequence_Inr_iff:
  "(\<exists>ys. sequence (map f xs) = Inr ys) \<longleftrightarrow> list_all (\<lambda>x. \<exists>y. f x = Inr y) xs"
  by (induction xs) (auto split: sum.splits)

lemma sequence_Inl_TypeError:
  "(\<And>x e. x \<in> set xs \<Longrightarrow> f x = Inl e \<Longrightarrow> e = TypeError) \<Longrightarrow>
   sequence (map f xs) = Inl e \<Longrightarrow> e = TypeError"
  by (induction xs) (auto split: sum.splits)

lemma sequence_idem:
  "(\<And>x y. f x = Inr y \<Longrightarrow> f y = Inr y) \<Longrightarrow> sequence (map f xs) = Inr ys \<Longrightarrow>
   sequence (map f ys) = Inr ys"
  by (induction xs arbitrary: ys) (auto split: sum.splits)

lemma getFields_itemSchema_Subscription:
  "getFields itemSchema ''Subscription'' =
     Inr [\<lparr>fieldName = ''onItemChanged'', fieldType = Named ''Item'',
           fieldDescription = None, fieldArgs = [''webhookUrl'']\<rparr>]"
  by (simp add: getFields_def getType_def itemSchema_def)

section \<open>The variable signature builder: properties\<close>

text \<open>
  C1. When no declared variable is among the requested names, the source builds the text
  of the braces around no entry and compares that text, not the entries, with the empty
  string: the test never holds. With an empty list of requested names the result is
  \<open>{}\<close>, for every schema and every operation, and \<open>null\<close> is the result for no input at
  all.
\<close>

theorem no_requested_variables_gives_empty_braces:
  "typeScriptSignatureForOperationVariables [] S k d = Inr ''{}''
   \<and> typeScriptSignatureForOperationVariables names S k d \<noteq> Inr ''null''"
  by (auto simp: typeScriptSignatureForOperationVariables_def Let_def split: sum.splits)

lemma sequence_Inl_ex:
  "x \<in> set xs \<Longrightarrow> f x = Inl e \<Longrightarrow> \<exists>e'. sequence (map f xs) = Inl e'"
  by (induction xs) (auto split: sum.splits)

lemma typeFromAST_named: "typeFromAST S node = Some t \<Longrightarrow> namedOf t = nodeName node"
  by (induction node arbitrary: t) (auto split: option.splits)

lemma mapper_returns_on_leaf:
  assumes "\<not> isObjectType S (Some (namedOf t))" "\<not> isInputObjectType S (Some (namedOf t))"
  shows "\<exists>v. typeScriptForGraphQLType S k (Some t) = Inr v"
  using assms
proof (induction t)
  case (ListT t)
  then obtain v where "typeScriptForGraphQLType S k (Some t) = Inr v"
    by auto
  then show ?case
    by simp
qed (simp_all add: Let_def)

lemma mapper_returns_on_leaf_node:
  assumes "\<not> isObjectType S (Some (nodeName node))"
    "\<not> isInputObjectType S (Some (nodeName node))"
  shows "\<exists>v. typeScriptForGraphQLType S k (typeFromAST S node) = Inr v"
proof (cases "typeFromAST S node")
  case None
  then show ?thesis
    by (simp add: Let_def)
next
  case (Some t)
  with assms typeFromAST_named[OF Some] show ?thesis
    using mapper_returns_on_leaf[of S t k] by simp
qed

lemma mapper_filter_overflows:
  "typeScriptForGraphQLType filterSchema k (Some (Named ''Filter'')) = Inl RangeError"
proof (induction k)
  case 0
  show ?case
    by (simp add: filterSchema_def isObjectType_def isInputObjectType_def getType_def)
next
  case (Suc k)
  have "isInputObjectType filterSchema (Some ''Filter'')"
    by (simp add: filterSchema_def isInputObjectType_def getType_def)
  moreover have "getFields filterSchema ''Filter'' =
      Inr [\<lparr>fieldName = ''and'', fieldType = ListT (Named ''Filter''),
            fieldDescription = None, fieldArgs = []\<rparr>]"
    by (simp add: filterSchema_def getFields_def getType_def)
  ultimately show ?case
    using Suc by simp
qed

text \<open>
  C7. The builder emits one entry \<open>"name": Type\<close> for each declared variable whose name is
  requested, in the order of the declarations: the list of requested names is used as a
  set only. That is its result when the type mapper returns for the declared type of each
  retained variable (\<open>ty v\<close> is what it returns for \<open>v\<close>); when the mapper throws for one of
  them, the builder throws and there is no signature. The mapper returns, and so does the
  builder, when no retained variable has a type built on an object or input object type.
\<close>

theorem variables_in_declaration_order:
  assumes "variableDefinitions d = Some vds"
    and "retained = filter (\<lambda>v. variableName v \<in> set names) vds"
  shows "((\<forall>v \<in> set retained.
             grammatical (variableType v) \<and>
             typeScriptForGraphQLType S k (typeFromAST S (variableType v)) = Inr (ty v))
          \<longrightarrow> typeScriptSignatureForOperationVariables names S k d =
                Inr (''{'' @ join '', ''
                       (map (\<lambda>v. [CHR 0x22] @ variableName v @ [CHR 0x22] @ '': ''
                                 @ toStringJS (ty v)) retained) @ ''}''))
       \<and> ((\<exists>v \<in> set retained. \<exists>e.
             typeScriptForGraphQLType S k (typeFromAST S (variableType v)) = Inl e)
          \<longrightarrow> (\<exists>e. typeScriptSignatureForOperationVariables names S k d = Inl e))
       \<and> ((\<forall>v \<in> set retained.
             grammatical (variableType v) \<and>
             \<not> isObjectType S (Some (nodeName (variableType v))) \<and>
             \<not> isInputObjectType S (Some (nodeName (variableType v))))
          \<longrightarrow> (\<exists>text. typeScriptSignatureForOperationVariables names S k d = Inr text))"
proof (intro conjI impI)
  assume ok: "\<forall>v \<in> set retained.
             grammatical (variableType v) \<and>
             typeScriptForGraphQLType S k (typeFromAST S (variableType v)) = Inr (ty v)"
  have "sequence (map (variableEntry S k) retained)
          = Inr (map (\<lambda>v. (variableName v, ty v)) retained)"
    by (rule sequence_map_Inr) (use ok in \<open>auto simp: variableEntry_def reparse_def\<close>)
  then show "typeScriptSignatureForOperationVariables names S k d =
                Inr (''{'' @ join '', ''
                       (map (\<lambda>v. [CHR 0x22] @ variableName v @ [CHR 0x22] @ '': ''
                                 @ toStringJS (ty v)) retained) @ ''}'')"
    by (simp add: typeScriptSignatureForOperationVariables_def assms Let_def comp_def)
next
  assume "\<exists>v \<in> set retained. \<exists>e.
             typeScriptForGraphQLType S k (typeFromAST S (variableType v)) = Inl e"
  then obtain v e where v: "v \<in> set retained"
    and e: "typeScriptForGraphQLType S k (typeFromAST S (variableType v)) = Inl e"
    by blast
  have "\<exists>e'. variableEntry S k v = Inl e'"
    using e by (simp add: variableEntry_def reparse_def)
  then obtain e' where "variableEntry S k v = Inl e'" ..
  from sequence_Inl_ex[where f = "variableEntry S k", OF v this]
  obtain e'' where "sequence (map (variableEntry S k) retained) = Inl e''" ..
  then show "\<exists>e. typeScriptSignatureForOperationVariables names S k d = Inl e"
    by (simp add: typeScriptSignatureForOperationVariables_def assms Let_def)
next
  assume leaf: "\<forall>v \<in> set retained.
             grammatical (variableType v) \<and>
             \<not> isObjectType S (Some (nodeName (variableType v))) \<and>
             \<not> isInputObjectType S (Some (nodeName (variableType v)))"
  have "list_all (\<lambda>v. \<exists>y. variableEntry S k v = Inr y) retained"
    unfolding list_all_iff
  proof
    fix v
    assume "v \<in> set retained"
    with leaf mapper_returns_on_leaf_node[of S "variableType v" k]
    show "\<exists>y. variableEntry S k v = Inr y"
      by (auto simp: variableEntry_def reparse_def)
  qed
  then obtain ys where "sequence (map (variableEntry S k) retained) = Inr ys"
    unfolding sequence_Inr_iff[symmetric] ..
  then show "\<exists>text. typeScriptSignatureForOperationVariables names S k d = Inr text"
    by (simp add: typeScriptSignatureForOperationVariables_def assms Let_def)
qed

text \<open>The scenario of the specification: \<open>query Q ($a: Int, $b: String) { field }\<close>
  filtered to \<open>b\<close> gives \<open>{"b": string}\<close>. With the names \<open>b\<close>, \<open>a\<close> requested in this order,
  \<open>a\<close> comes first, as it is declared.\<close>

theorem variables_in_declaration_order_witness:
  "typeScriptSignatureForOperationVariables [''b''] itemSchema 0 queryQ
     = Inr (''{'' @ [CHR 0x22] @ ''b'' @ [CHR 0x22] @ '': string}'')
   \<and> typeScriptSignatureForOperationVariables [''b'', ''a''] itemSchema 0 queryQ
     = Inr (''{'' @ [CHR 0x22] @ ''a'' @ [CHR 0x22] @ '': number, ''
                 @ [CHR 0x22] @ ''b'' @ [CHR 0x22] @ '': string}'')"
proof -
  let ?a = "\<lparr>variableName = ''a'', variableType = NamedType ''Int''\<rparr>"
  let ?b = "\<lparr>variableName = ''b'', variableType = NamedType ''String''\<rparr>"
  let ?ty = "\<lambda>v. if variableName v = ''a'' then Str ''number'' else Str ''string''"
  have vds: "variableDefinitions queryQ = Some [?a, ?b]"
    by (simp add: queryQ_def)
  have one: "[?b] = filter (\<lambda>v. variableName v \<in> set [''b'']) [?a, ?b]"
    and two: "[?a, ?b] = filter (\<lambda>v. variableName v \<in> set [''b'', ''a'']) [?a, ?b]"
    by simp_all
  have int: "typeScriptForGraphQLType itemSchema 0 (typeFromAST itemSchema (NamedType ''Int''))
               = Inr (Str ''number'')"
    and string: "typeScriptForGraphQLType itemSchema 0
                   (typeFromAST itemSchema (NamedType ''String'')) = Inr (Str ''string'')"
    by code_simp+
  have "typeScriptSignatureForOperationVariables [''b''] itemSchema 0 queryQ =
          Inr (''{'' @ join '', ''
                 (map (\<lambda>v. [CHR 0x22] @ variableName v @ [CHR 0x22] @ '': ''
                           @ toStringJS (?ty v)) [?b]) @ ''}'')"
    by (rule variables_in_declaration_order[OF vds one, THEN conjunct1, THEN mp])
      (simp add: string del: typeFromAST.simps)
  moreover
  have "typeScriptSignatureForOperationVariables [''b'', ''a''] itemSchema 0 queryQ =
          Inr (''{'' @ join '', ''
                 (map (\<lambda>v. [CHR 0x22] @ variableName v @ [CHR 0x22] @ '': ''
                           @ toStringJS (?ty v)) [?a, ?b]) @ ''}'')"
    by (rule variables_in_declaration_order[OF vds two, THEN conjunct1, THEN mp])
      (simp add: int string del: typeFromAST.simps)
  ultimately show ?thesis
    by simp
qed

text \<open>
  The builder does not return for every operation. With \<open>input Filter { and: [Filter] }\<close>
  the mapper descends from \<open>Filter\<close> into its field \<open>and\<close> and is at \<open>Filter\<close> again: the
  recursion has no end, and whatever the size of the stack, it is exhausted. For
  \<open>query ($f: Filter) { a (f: $f) }\<close> there is no signature.
\<close>

theorem self_referring_input_type_overflows:
  "\<forall>k. typeScriptSignatureForOperationVariables [''f''] filterSchema k queryFilter
         = Inl RangeError"
proof
  fix k
  have "typeFromAST filterSchema (NamedType ''Filter'') = Some (Named ''Filter'')"
    by (simp add: filterSchema_def getType_def)
  then show "typeScriptSignatureForOperationVariables [''f''] filterSchema k queryFilter
         = Inl RangeError"
    by (simp add: typeScriptSignatureForOperationVariables_def queryFilter_def
          variableEntry_def reparse_def mapper_filter_overflows
          del: typeScriptForGraphQLType.simps)
qed

section \<open>The webhook patchers: properties\<close>

lemma patchSelection_defined:
  assumes "getFields S T = Inr fs"
  shows "(\<exists>sel'. patchSelection S T a sel = Inr sel') \<longleftrightarrow> namesField fs sel"
proof (cases sel)
  case (Field al name args sels)
  then show ?thesis using assms by (cases "lookupField fs name") simp_all
qed simp_all

lemma patchSelection_error:
  assumes "getFields S T = Inr fs" "patchSelection S T a sel = Inl e"
  shows "e = TypeError"
proof (cases sel)
  case (Field al name args sels)
  then show ?thesis using assms by (cases "lookupField fs name") (simp_all split: if_splits)
qed (use assms in simp_all)

lemma patchDefinition_defined:
  assumes "operation d = Some Subscription" "subscriptionType S = Some T"
    "getFields S T = Inr fs" "selectionSet d = Some sels"
  shows "(\<exists>d'. patchDefinition a v S d = Inr d') \<longleftrightarrow> list_all (namesField fs) sels"
proof -
  have "(\<exists>ys. sequence (map (patchSelection S T a) sels) = Inr ys)
          \<longleftrightarrow> list_all (namesField fs) sels"
    unfolding sequence_Inr_iff using patchSelection_defined[OF assms(3)] by simp
  moreover have "(\<exists>d'. patchDefinition a v S d = Inr d') \<longleftrightarrow>
      (\<exists>ys. sequence (map (patchSelection S T a) sels) = Inr ys)"
    using assms by (cases "sequence (map (patchSelection S T a) sels)")
      (simp_all add: patchDefinition_def Let_def)
  ultimately show ?thesis by simp
qed

lemma patchDefinition_error:
  assumes "operation d = Some Subscription" "subscriptionType S = Some T"
    "getFields S T = Inr fs" "selectionSet d = Some sels"
    "\<not> list_all (namesField fs) sels"
  shows "patchDefinition a v S d = Inl TypeError"
proof -
  have "\<not> (\<exists>ys. sequence (map (patchSelection S T a) sels) = Inr ys)"
    unfolding sequence_Inr_iff using patchSelection_defined[OF assms(3)] assms(5) by simp
  then obtain e where e: "sequence (map (patchSelection S T a) sels) = Inl e"
    by (cases "sequence (map (patchSelection S T a) sels)") auto
  then have "e = TypeError"
    using sequence_Inl_TypeError[of sels "patchSelection S T a" e]
      patchSelection_error[OF assms(3)]
    by blast
  with e show ?thesis
    using assms by (simp add: patchDefinition_def)
qed

lemma patchSelection_idem:
  assumes "patchSelection S T a sel = Inr sel'"
  shows "patchSelection S T a sel' = Inr sel'"
proof (cases sel)
  case (Field al name args sels)
  show ?thesis
  proof (cases "getFields S T")
    case (Inl e)
    with assms Field show ?thesis by simp
  next
    case (Inr fs)
    show ?thesis
    proof (cases "lookupField fs name")
      case None
      with assms Field Inr show ?thesis by simp
    next
      case (Some f)
      with assms Field Inr show ?thesis
        by (auto simp: selectionHasArg_def split: if_splits)
    qed
  qed
qed (use assms in auto)

lemma patchDefinition_idem:
  assumes "patchDefinition a v S d = Inr d'"
  shows "patchDefinition a v S d' = Inr d'"
proof (cases "operation d = Some Subscription")
  case False
  with assms show ?thesis by (simp add: patchDefinition_def)
next
  case sub: True
  show ?thesis
  proof (cases "subscriptionType S")
    case None
    with assms sub show ?thesis by (simp add: patchDefinition_def)
  next
    case (Some T)
    show ?thesis
    proof (cases "selectionSet d")
      case None
      with assms sub Some show ?thesis by (simp add: patchDefinition_def)
    next
      case sels: (Some sels)
      show ?thesis
      proof (cases "sequence (map (patchSelection S T a) sels)")
        case (Inl e)
        with assms sub Some sels show ?thesis by (simp add: patchDefinition_def)
      next
        case (Inr news)
        have again: "sequence (map (patchSelection S T a) news) = Inr news"
          using sequence_idem[OF patchSelection_idem Inr] .
        define has where "has = (case variableDefinitions d of None \<Rightarrow> False
                  | Some vs \<Rightarrow> list_ex (\<lambda>x. variableName x = variableName v) vs)"
        have d': "d' = d\<lparr>variableDefinitions :=
             (if has then variableDefinitions d
              else Some ((case variableDefinitions d of None \<Rightarrow> [] | Some vs \<Rightarrow> vs) @ [v])),
            selectionSet := Some news\<rparr>"
          using assms sub Some sels Inr by (simp add: patchDefinition_def Let_def has_def)
        show ?thesis
          using sub Some again
          by (cases has) (auto simp: d' patchDefinition_def Let_def has_def split: option.splits)
      qed
    qed
  qed
qed

text \<open>
  C3. Patching is idempotent: whenever \<open>patchSubscriptionWebhookField\<close> returns a
  definition, patching that definition again returns it unchanged, so no second
  \<open>webhookUrl\<close> argument and no second \<open>netligraphWebhookUrl\<close> variable is ever added. And
  the first application does add them: on a subscription of one field that declares a
  \<open>webhookUrl\<close> argument which the selection does not supply, with no variable of the name
  declared, the result has the argument \<open>webhookUrl: $netligraphWebhookUrl\<close> appended to
  the selection and the variable \<open>$netligraphWebhookUrl: String!\<close> appended to the
  operation.
\<close>

theorem webhook_patch_idempotent:
  "(patchSubscriptionWebhookField S d = Inr d' \<longrightarrow> patchSubscriptionWebhookField S d' = Inr d')
   \<and> (operation e = Some Subscription \<and> subscriptionType S = Some T
        \<and> getFields S T = Inr fs \<and> lookupField fs name = Some field
        \<and> list_ex (\<lambda>arg. arg = ''webhookUrl'') (fieldArgs field)
        \<and> \<not> list_ex (\<lambda>arg. argumentName arg = ''webhookUrl'') args
        \<and> \<not> list_ex (\<lambda>v. variableName v = ''netligraphWebhookUrl'') vars
        \<and> variableDefinitions e = Some vars
        \<and> selectionSet e = Some [Field al name (Some args) sels]
      \<longrightarrow> patchSubscriptionWebhookField S e =
            Inr (e\<lparr>variableDefinitions := Some (vars @ [webhookUrlVariable]),
                   selectionSet :=
                     Some [Field al name (Some (args @ [webhookUrlArgument])) sels]\<rparr>))"
proof (intro conjI impI)
  assume "patchSubscriptionWebhookField S d = Inr d'"
  then show "patchSubscriptionWebhookField S d' = Inr d'"
    unfolding patchSubscriptionWebhookField_def by (rule patchDefinition_idem)
next
  assume "operation e = Some Subscription \<and> subscriptionType S = Some T
        \<and> getFields S T = Inr fs \<and> lookupField fs name = Some field
        \<and> list_ex (\<lambda>arg. arg = ''webhookUrl'') (fieldArgs field)
        \<and> \<not> list_ex (\<lambda>arg. argumentName arg = ''webhookUrl'') args
        \<and> \<not> list_ex (\<lambda>v. variableName v = ''netligraphWebhookUrl'') vars
        \<and> variableDefinitions e = Some vars
        \<and> selectionSet e = Some [Field al name (Some args) sels]"
  then show "patchSubscriptionWebhookField S e =
            Inr (e\<lparr>variableDefinitions := Some (vars @ [webhookUrlVariable]),
                   selectionSet :=
                     Some [Field al name (Some (args @ [webhookUrlArgument])) sels]\<rparr>)"
    by (simp add: patchSubscriptionWebhookField_def patchDefinition_def Let_def
          selectionHasArg_def webhookUrlArgument_def webhookUrlVariable_def)
qed

text \<open>The scenario of the specification: \<open>subscription { onItemChanged { id } }\<close> against
  \<open>onItemChanged (webhookUrl: String): Item\<close> gets the argument and the variable, and
  patching the result again changes nothing.\<close>

theorem webhook_patch_idempotent_witness:
  "patchSubscriptionWebhookField itemSchema itemSubscription = Inr itemSubscriptionPatched
   \<and> patchSubscriptionWebhookField itemSchema itemSubscriptionPatched
       = Inr itemSubscriptionPatched"
proof -
  have first: "patchSubscriptionWebhookField itemSchema itemSubscription
                 = Inr itemSubscriptionPatched"
    using webhook_patch_idempotent
      [where S = itemSchema and e = itemSubscription and T = "''Subscription''"
         and fs = "[\<lparr>fieldName = ''onItemChanged'', fieldType = Named ''Item'',
                      fieldDescription = None, fieldArgs = [''webhookUrl'']\<rparr>]"
         and name = "''onItemChanged''"
         and field = "\<lparr>fieldName = ''onItemChanged'', fieldType = Named ''Item'',
                       fieldDescription = None, fieldArgs = [''webhookUrl'']\<rparr>"
         and args = "[]" and vars = "[]" and al = None
         and sels = "Some [Field None ''id'' (Some []) None]"]
      getFields_itemSchema_Subscription
    by (simp add: itemSubscription_def itemSubscriptionPatched_def lookupField_def
          webhookUrlArgument_def webhookUrlVariable_def)
      (simp add: itemSchema_def)
  moreover from first
  have "patchSubscriptionWebhookField itemSchema itemSubscriptionPatched
          = Inr itemSubscriptionPatched"
    using webhook_patch_idempotent
      [where S = itemSchema and d = itemSubscription and d' = itemSubscriptionPatched]
    by simp
  ultimately show ?thesis by simp
qed

text \<open>
  C9. The lookup of the field on the subscription type is not guarded. For a
  subscription operation with a selection set, against a schema with a subscription
  root, each patcher returns a definition exactly when every top-level field selection
  names a field of the root; when some selection names an absent field, reading the
  arguments of the missing descriptor throws a \<open>TypeError\<close> and nothing is returned.
\<close>

theorem webhook_patch_defined_iff_fields_exist:
  assumes "operation d = Some Subscription" "subscriptionType S = Some T"
    "getFields S T = Inr fs" "selectionSet d = Some sels"
  shows "((\<exists>d'. patchSubscriptionWebhookField S d = Inr d') \<longleftrightarrow> list_all (namesField fs) sels)
       \<and> ((\<exists>d'. patchSubscriptionWebhookSecretField S d = Inr d')
            \<longleftrightarrow> list_all (namesField fs) sels)
       \<and> (if list_all (namesField fs) sels then True
          else patchSubscriptionWebhookField S d = Inl TypeError
             \<and> patchSubscriptionWebhookSecretField S d = Inl TypeError)"
  using patchDefinition_defined[OF assms] patchDefinition_error[OF assms]
  by (simp add: patchSubscriptionWebhookField_def patchSubscriptionWebhookSecretField_def)

text \<open>\<open>subscription { onItemRemoved { id } }\<close> names a field the root does not have: both
  patchers throw. \<open>subscription { onItemChanged { id } }\<close> is patched.\<close>

theorem webhook_patch_defined_iff_fields_exist_witness:
  "patchSubscriptionWebhookField itemSchema strangerSubscription = Inl TypeError
   \<and> patchSubscriptionWebhookSecretField itemSchema strangerSubscription = Inl TypeError
   \<and> (\<exists>d'. patchSubscriptionWebhookField itemSchema itemSubscription = Inr d')
   \<and> (\<exists>d'. patchSubscriptionWebhookSecretField itemSchema itemSubscription = Inr d')"
proof -
  have sub: "subscriptionType itemSchema = Some ''Subscription''"
    by (simp add: itemSchema_def)
  have "patchSubscriptionWebhookField itemSchema strangerSubscription = Inl TypeError
   \<and> patchSubscriptionWebhookSecretField itemSchema strangerSubscription = Inl TypeError"
    using webhook_patch_defined_iff_fields_exist
      [where d = strangerSubscription and sels =
          "[Field None ''onItemRemoved'' (Some []) (Some [Field None ''id'' (Some []) None])]",
       OF _ sub getFields_itemSchema_Subscription]
    by (simp add: strangerSubscription_def lookupField_def)
  moreover
  have "(\<exists>d'. patchSubscriptionWebhookField itemSchema itemSubscription = Inr d')
   \<and> (\<exists>d'. patchSubscriptionWebhookSecretField itemSchema itemSubscription = Inr d')"
    using webhook_patch_defined_iff_fields_exist
      [where d = itemSubscription and sels =
          "[Field None ''onItemChanged'' (Some []) (Some [Field None ''id'' (Some []) None])]",
       OF _ sub getFields_itemSchema_Subscription]
    by (simp add: itemSubscription_def lookupField_def)
  ultimately show ?thesis by simp
qed

section \<open>The collector of variable definitions: properties\<close>

lemma sorted_key_map:
  "Sorting_Algorithms.sorted (key f cmp) xs = Sorting_Algorithms.sorted cmp (map f xs)"
  by (induction xs rule: induct_list012) simp_all

text \<open>
  C10. For every definition, \<open>gatherVariableDefinitions\<close> returns the pairs of variable
  name and printed type sorted by \<open>localeCompare\<close> on the names:
  \<^item> the first components of the result, in order, are sorted for the collation;
  \<^item> the result holds, as a multiset, one pair of name and printed text of the type for
    each declared variable, and nothing else;
  \<^item> names the collation takes for equal keep their declared order;
  \<^item> the result is empty when the definition is \<open>undefined\<close>, has no
    \<open>variableDefinitions\<close> or has an empty list of them;
  \<^item> declaration order is not kept otherwise: \<open>query ($b: Int, $a: [String!]) { field }\<close>
    gives \<open>a\<close> first, with the printed text of its type, for the order of the code units.
\<close>

theorem gathered_variables_sorted_by_name:
  "Sorting_Algorithms.sorted localeCompare
     (map fst (gatherVariableDefinitions localeCompare d))
   \<and> mset (gatherVariableDefinitions localeCompare (Some e))
       = mset (map (\<lambda>v. (variableName v, printType (variableType v)))
                (case variableDefinitions e of None \<Rightarrow> [] | Some vs \<Rightarrow> vs))
   \<and> filter (\<lambda>p. compare localeCompare n (fst p) = Equiv)
         (gatherVariableDefinitions localeCompare (Some e))
       = filter (\<lambda>p. compare localeCompare n (fst p) = Equiv)
           (map (\<lambda>v. (variableName v, printType (variableType v)))
              (case variableDefinitions e of None \<Rightarrow> [] | Some vs \<Rightarrow> vs))
   \<and> gatherVariableDefinitions localeCompare None = []
   \<and> gatherVariableDefinitions localeCompare (Some (e\<lparr>variableDefinitions := None\<rparr>)) = []
   \<and> gatherVariableDefinitions localeCompare (Some (e\<lparr>variableDefinitions := Some []\<rparr>)) = []
   \<and> gatherVariableDefinitions codeUnitOrder
        (Some (queryQ\<lparr>variableDefinitions :=
           Some [\<lparr>variableName = ''b'', variableType = NamedType ''Int''\<rparr>,
                 \<lparr>variableName = ''a'',
                  variableType = ListType (NonNullType (NamedType ''String''))\<rparr>]\<rparr>))
       = [(''a'', ''[String!]''), (''b'', ''Int'')]"
proof -
  let ?pairs = "map (\<lambda>v. (variableName v, printType (variableType v)))
                  (case variableDefinitions e of None \<Rightarrow> [] | Some vs \<Rightarrow> vs)"
  have pair: "extractVariableNameStringPair = (\<lambda>v. (variableName v, printType (variableType v)))"
    by (rule ext) (simp add: extractVariableNameStringPair_def)
  have gathered: "gatherVariableDefinitions localeCompare (Some e)
                    = Sorting_Algorithms.sort (key fst localeCompare) ?pairs"
    by (cases "variableDefinitions e") (simp_all add: gatherVariableDefinitions_def pair)
  have "Sorting_Algorithms.sorted localeCompare
          (map fst (gatherVariableDefinitions localeCompare d))"
    unfolding sorted_key_map[symmetric] by (simp add: gatherVariableDefinitions_def)
  moreover have "filter (\<lambda>p. compare localeCompare n (fst p) = Equiv)
          (gatherVariableDefinitions localeCompare (Some e))
       = filter (\<lambda>p. compare localeCompare n (fst p) = Equiv) ?pairs"
    unfolding gathered using stable_sort[of "key fst localeCompare" "(n, x)" ?pairs]
    by simp
  moreover have "mset (gatherVariableDefinitions localeCompare (Some e)) = mset ?pairs"
    unfolding gathered by simp
  moreover have "gatherVariableDefinitions codeUnitOrder
        (Some (queryQ\<lparr>variableDefinitions :=
           Some [\<lparr>variableName = ''b'', variableType = NamedType ''Int''\<rparr>,
                 \<lparr>variableName = ''a'',
                  variableType = ListType (NonNullType (NamedType ''String''))\<rparr>]\<rparr>))
       = [(''a'', ''[String!]''), (''b'', ''Int'')]"
    by (simp add: gatherVariableDefinitions_def extractVariableNameStringPair_def
          codeUnitOrder_def)
  ultimately show ?thesis
    by (simp add: gatherVariableDefinitions_def)
qed

section \<open>The shape builder: properties\<close>

lemma bind_ret_left: "bind (ret x) f = f x"
  by (cases "f x") (simp add: bind_def ret_def)

lemma bind_ret_right: "bind m ret = m"
  by (cases m) (auto simp: bind_def ret_def split: sum.splits)

lemma helperMap_absent_parent:
  "helperMap S F k None ss = ret (replicate (length ss) Undefined)"
  by (induction ss) (simp_all add: bind_def ret_def)

text \<open>
  C2. When the root type of the operation is absent, \<open>helper\<close> returns \<open>undefined\<close> for
  every selection, and the list of these goes to \<open>Object.fromEntries\<close> unfiltered: with
  at least one selection the call throws a \<open>TypeError\<close>, whatever the schema, the
  fragments and the selections are. No shape is returned.
\<close>

theorem absent_root_throws:
  assumes "baseGqlType S d = Inr None" "selectionSet d = Some (s # ss)"
  shows "typeScriptDefinitionObjectForOperation S d F k = ([], Inl TypeError)"
  using assms
  by (simp add: typeScriptDefinitionObjectForOperation_def helperMap_absent_parent
        bind_def lift_def ret_def fromEntries_def)

text \<open>\<open>mutation { doIt }\<close> against the example schema, which has no mutation root.\<close>

theorem absent_root_throws_witness:
  "baseGqlType itemSchema mutationDoIt = Inr None
   \<and> typeScriptDefinitionObjectForOperation itemSchema mutationDoIt Map.empty 0
       = ([], Inl TypeError)"
proof -
  have base: "baseGqlType itemSchema mutationDoIt = Inr None"
    by (simp add: baseGqlType_def mutationDoIt_def operationNode_def itemSchema_def)
  have sel: "selectionSet mutationDoIt = Some (Field None ''doIt'' (Some []) None # [])"
    by (simp add: mutationDoIt_def operationNode_def)
  from absent_root_throws[OF base sel] base show ?thesis by simp
qed

text \<open>Only a definition with no selection at all gets a shape when the root is absent:
  the empty object for an empty list of selections, \<open>any\<close> for no selection set.\<close>

lemma absent_root_no_selection:
  assumes "baseGqlType S d = Inr None"
  shows "selectionSet d = Some [] \<Longrightarrow>
           typeScriptDefinitionObjectForOperation S d F k = ([], Inr (envelope (Obj [])))"
    and "selectionSet d = None \<Longrightarrow>
           typeScriptDefinitionObjectForOperation S d F k = ([], Inr (envelope (Str ''any'')))"
  using assms
  by (simp_all add: typeScriptDefinitionObjectForOperation_def bind_def lift_def ret_def
        fromEntries_def)

lemma listCountLoop_within:
  "totalCount + wrappers t \<le> maximumDepth \<Longrightarrow>
   listCountLoop (Some t) innerListCount totalCount = ret (innerListCount + int (listWrappers t))"
  by (induction t arbitrary: innerListCount totalCount) (simp_all add: algebra_simps)

lemma listCountLoop_overrun:
  "totalCount \<le> maximumDepth \<Longrightarrow> totalCount + wrappers t > maximumDepth \<Longrightarrow>
   listCountLoop (Some t) innerListCount totalCount
     = ([''Bailing on potential infinite recursion''], Inr errorSigil)"
  by (induction t arbitrary: innerListCount totalCount)
     (simp_all add: bind_def warn_def ret_def)

lemma listCount_within:
  "wrappers t \<le> maximumDepth \<Longrightarrow> listCount (Some t) = ret (int (listWrappers t))"
  using listCountLoop_within[of 0 t 0] by (simp add: listCount_def)

lemma listCount_overrun:
  "wrappers t > maximumDepth \<Longrightarrow>
   listCount (Some t) = ([''Bailing on potential infinite recursion''], Inr errorSigil)"
  using listCountLoop_overrun[of 0 t 0] by (simp add: listCount_def)

lemma wellFormed_NonNull:
  "wellFormed (NonNull t) \<Longrightarrow> wellFormed t \<and> \<not> isNonNullType (Some t)"
  by (cases t) simp_all

lemma wellFormed_wrappers_aux:
  "wellFormed t \<Longrightarrow>
     wrappers t \<le> 2 * listWrappers t + 1
     \<and> (isNonNullType (Some t) \<or> wrappers t \<le> 2 * listWrappers t)"
proof (induction t)
  case (NonNull t)
  then show ?case using wellFormed_NonNull[of t] by auto
qed auto

lemma wellFormed_wrappers: "wellFormed t \<Longrightarrow> wrappers t \<le> 2 * listWrappers t + 1"
  using wellFormed_wrappers_aux by blast

lemma isList_iff: "wellFormed t \<Longrightarrow> isList (Some t) \<longleftrightarrow> listWrappers t > 0"
  by (induction t rule: wellFormed.induct) (simp_all add: isList_def)

lemma mapper_unwraps:
  "typeScriptForGraphQLType S k (Some t) =
     map_sum id (arrayOf (listWrappers t)) (typeScriptForGraphQLType S k (Some (Named (namedOf t))))"
proof (induction t)
  case (Named n)
  then show ?case by (simp add: arrayOf_def sum.map_ident del: typeScriptForGraphQLType.simps)
next
  case (ListT t)
  have "typeScriptForGraphQLType S k (Some (ListT t)) =
      map_sum id (\<lambda>subType. Str (''Array<'' @ toStringJS subType @ ''>''))
        (typeScriptForGraphQLType S k (Some t))"
    by (cases "typeScriptForGraphQLType S k (Some t)") simp_all
  then show ?case
    by (simp add: ListT sum.map_comp comp_def arrayOf_def del: typeScriptForGraphQLType.simps)
next
  case (NonNull t)
  then show ?case by simp
qed

lemma scalar_mapped:
  assumes "\<not> isObjectType S (Some n)" "\<not> isInputObjectType S (Some n)"
    "\<not> isEnumType S (Some n)" "property scalarMap n = Str s"
  shows "typeScriptForGraphQLType S k (Some (Named n)) = Inr (Str s)"
proof -
  have "s \<noteq> []"
    using assms(4)
    by (auto simp: property_def scalarMap_def split: option.splits if_splits)
  then show ?thesis
    using assms by simp
qed

text \<open>A scalar type of the schema named \<open>constructor\<close> is mapped to what the table
  inherits under that name, and a signature shows it as the text of a built-in
  function.\<close>

lemma scalar_table_inherits:
  assumes "\<not> isObjectType S (Some ''constructor'')"
    "\<not> isInputObjectType S (Some ''constructor'')" "\<not> isEnumType S (Some ''constructor'')"
  shows "typeScriptForGraphQLType S k (Some (Named ''constructor''))
           = Inr (Inherited ''constructor'')"
    and "toStringJS (Inherited ''constructor'') = ''function Object() { [native code] }''"
  using assms by (simp_all add: property_def scalarMap_def objectPrototype_def)

lemma nestingLevel_within:
  assumes "wellFormed t" "wrappers t \<le> maximumDepth"
  shows "(if isList (Some t) then listCount (Some t) else ret 0) = ret (int (listWrappers t))"
  using assms isList_iff[of t] listCount_within[of t] by auto

lemma nestingLevel_overrun:
  assumes "wellFormed t" "wrappers t > maximumDepth"
  shows "(if isList (Some t) then listCount (Some t) else ret 0)
           = ([''Bailing on potential infinite recursion''], Inr errorSigil)"
proof -
  have "listWrappers t > 0"
    using wellFormed_wrappers[OF assms(1)] assms(2) by (simp add: maximumDepth_def)
  then show ?thesis
    using assms isList_iff[of t] listCount_overrun[of t] by simp
qed

lemma fieldEntry_split:
  assumes "(if isList (Some (fieldType f)) then listCount (Some (fieldType f)) else ret 0) = m"
  shows "fieldEntry S dn (Some f) sub =
     bind m
       (\<lambda>nestingLevel.
          bind (fieldEntry S dn (Some (f\<lparr>fieldType := Named (namedOf (fieldType f))\<rparr>)) sub)
            (\<lambda>e. ret (case e of
                         Arr [name, Obj [(tk, ty), descr]] \<Rightarrow>
                           Arr [name, Obj [(tk, nest nestingLevel ty), descr]]
                       | r \<Rightarrow> r)))"
proof -
  have base: "\<not> isList (Some (Named n))" for n
    by (simp add: isList_def)
  show ?thesis
    unfolding assms[symmetric]
    apply (simp add: fieldEntry_def Let_def assms getNamedType_def base)
    apply (cases m)
    apply (auto simp: bind_def ret_def lift_def warn_def entry_def nest_def split: sum.splits prod.splits option.splits)
    done
qed

lemma entry_case_id:
  "(case e of Arr [name, Obj [(tk, ty), descr]] \<Rightarrow> Arr [name, Obj [(tk, nest errorSigil ty), descr]]
    | r \<Rightarrow> r) = e"
  by (auto simp: nest_def errorSigil_def split: jsv.splits list.splits prod.splits)

lemma fieldEntry_within:
  assumes "wellFormed t" "wrappers t \<le> maximumDepth" "fieldType f = t"
  shows "fieldEntry S dn (Some f) sub =
     bind (fieldEntry S dn (Some (f\<lparr>fieldType := Named (namedOf t)\<rparr>)) sub)
            (\<lambda>e. ret (nestEntry (int (listWrappers t)) e))"
proof -
  have "(if isList (Some (fieldType f)) then listCount (Some (fieldType f)) else ret 0)
          = ret (int (listWrappers t))"
    unfolding assms(3) by (rule nestingLevel_within[OF assms(1,2)])
  from fieldEntry_split[OF this] show ?thesis
    unfolding nestEntry_def by (simp only: bind_ret_left assms(3))
qed

lemma fieldEntry_overrun:
  assumes "wellFormed t" "wrappers t > maximumDepth" "fieldType f = t"
  shows "fieldEntry S dn (Some f) sub =
     bind (warn ''Bailing on potential infinite recursion'')
       (\<lambda>_. fieldEntry S dn (Some (f\<lparr>fieldType := Named (namedOf t)\<rparr>)) sub)"
proof -
  have "(if isList (Some (fieldType f)) then listCount (Some (fieldType f)) else ret 0)
          = ([''Bailing on potential infinite recursion''], Inr errorSigil)"
    unfolding assms(3) by (rule nestingLevel_overrun[OF assms(1,2)])
  from fieldEntry_split[OF this]
  have "fieldEntry S dn (Some f) sub =
     bind ([''Bailing on potential infinite recursion''], Inr errorSigil)
       (\<lambda>nestingLevel.
          bind (fieldEntry S dn (Some (f\<lparr>fieldType := Named (namedOf t)\<rparr>)) sub)
            (\<lambda>e. ret (case e of
                         Arr [name, Obj [(tk, ty), descr]] \<Rightarrow>
                           Arr [name, Obj [(tk, nest nestingLevel ty), descr]]
                       | r \<Rightarrow> r)))"
    by (simp only: assms(3))
  also have "\<dots> = bind (warn ''Bailing on potential infinite recursion'')
       (\<lambda>_. bind (fieldEntry S dn (Some (f\<lparr>fieldType := Named (namedOf t)\<rparr>)) sub) ret)"
    by (simp add: bind_def warn_def entry_case_id)
  finally show ?thesis by (simp add: bind_ret_right)
qed

lemma funpow_ListT_measures:
  "wellFormed ((ListT ^^ n) t) = wellFormed t"
  "wrappers ((ListT ^^ n) t) = n + wrappers t"
  "listWrappers ((ListT ^^ n) t) = n + listWrappers t"
  "namedOf ((ListT ^^ n) t) = namedOf t"
  by (induction n) simp_all

lemma bind_assoc: "bind (bind m f) g = bind m (\<lambda>x. bind (f x) g)"
  by (cases m) (auto simp: bind_def split: sum.splits prod.splits)

lemma helperMap_append:
  "helperMap S F k p (xs @ ys) =
     bind (helperMap S F k p xs) (\<lambda>rs. bind (helperMap S F k p ys) (\<lambda>rs'. ret (rs @ rs')))"
  by (induction xs) (simp_all add: bind_assoc bind_ret_left bind_ret_right)

lemma builder_around_selection:
  assumes "baseGqlType S d = Inr (Some P)" "selectionSet d = Some (pre @ s # post)"
  shows "typeScriptDefinitionObjectForOperation S d F k =
     bind (helperMap S F k (Some P) pre) (\<lambda>before.
     bind (helper S F k (Some P) s) (\<lambda>e.
     bind (helperMap S F k (Some P) post) (\<lambda>after.
     bind (lift (fromEntries (before @ e # after))) (\<lambda>object. ret (envelope object)))))"
proof -
  have "lift (baseGqlType S d) = ret (Some P)"
    by (simp add: assms(1) lift_def ret_def)
  then show ?thesis
    by (simp add: typeScriptDefinitionObjectForOperation_def assms(2) helperMap_append
          bind_assoc bind_ret_left)
qed

lemma helper_field:
  assumes "getFields S P = Inr fs" "\<not> startsWith name ''__''"
  shows "helper S F k (Some P) (Field al name args sels) =
     bind (case sels of
             None \<Rightarrow> ret None
           | Some ss \<Rightarrow>
               bind (innerHelperMap S F k
                       (getNamedType (map_option fieldType (lookupField fs name))) ss)
                 (\<lambda>rs. ret (Some (flatten rs))))
       (\<lambda>sub. fieldEntry S (displayName al name) (lookupField fs name) sub)"
proof -
  have "lift (getFields S P) = ret fs"
    by (simp add: assms(1) lift_def ret_def)
  then show ?thesis
    by (simp add: assms(2) bind_ret_left)
qed

lemma scalar_entry:
  assumes "\<not> isObjectType S (Some n)" "\<not> isUnionType S (Some n)" "\<not> isInterfaceType S (Some n)"
    "\<not> isEnumType S (Some n)" "n \<noteq> []" "property shapeScalarMap n = Str s"
    "fieldType f = Named n"
  shows "fieldEntry S dn (Some f) None =
           ret (entry dn (Str s) (case fieldDescription f of None \<Rightarrow> Undefined | Some x \<Rightarrow> Str x))"
proof -
  have "s \<noteq> []"
    using assms(6)
    by (auto simp: property_def shapeScalarMap_def split: option.splits if_splits)
  then show ?thesis
    using assms
    by (simp add: fieldEntry_def getNamedType_def isList_def nest_def bind_ret_left)
qed

text \<open>
  C5. List nesting follows the list wrappers and nothing else. For a type \<open>t\<close> of at most
  30 wrappers (the depth guard of \<open>listCount\<close>):
  \<^item> the type mapper gives, for \<open>t\<close>, what it gives for the named type of \<open>t\<close> inside as
    many \<open>Array<...>\<close> layers as \<open>t\<close> has list wrappers (this part holds without the bound:
    the mapper has no guard); for a named type in the scalar table with the text \<open>m\<close> that
    is \<open>m\<close> inside that many layers;
  \<^item> the shape builder, on a definition that selects a field \<open>name\<close> of type \<open>t\<close> on its
    root type, among other selections before and after, gives the envelope of the entries
    of these selections in their order; the entry of \<open>name\<close> is the one of the same
    field declared with the named type of \<open>t\<close>, its \<open>type\<close> inside as many one-element
    arrays as \<open>t\<close> has list wrappers (\<open>nestEntry\<close>);
  \<^item> for a field without selection set whose named type is in the scalar table with the
    text \<open>s\<close>, \<open>helper\<close> returns the entry with \<open>s\<close> inside that many one-element arrays.
\<close>

theorem list_nesting_follows_list_wrappers:
  assumes "wellFormed t" "wrappers t \<le> maximumDepth"
    and "baseGqlType S d = Inr (Some P)" "getFields S P = Inr fs"
    and "lookupField fs name = Some f" "fieldType f = t" "\<not> startsWith name ''__''"
    and "selectionSet d = Some (pre @ Field al name args sels # post)"
  shows "typeScriptForGraphQLType S k (Some t) =
           map_sum id (arrayOf (listWrappers t))
             (typeScriptForGraphQLType S k (Some (Named (namedOf t))))
       \<and> (property scalarMap (namedOf t) = Str m \<and> \<not> isObjectType S (Some (namedOf t))
            \<and> \<not> isInputObjectType S (Some (namedOf t)) \<and> \<not> isEnumType S (Some (namedOf t))
          \<longrightarrow> typeScriptForGraphQLType S k (Some t) = Inr (arrayOf (listWrappers t) (Str m)))
       \<and> typeScriptDefinitionObjectForOperation S d F k =
           bind (helperMap S F k (Some P) pre) (\<lambda>before.
           bind (case sels of
                   None \<Rightarrow> ret None
                 | Some ss \<Rightarrow> bind (innerHelperMap S F k (Some (namedOf t)) ss)
                                (\<lambda>rs. ret (Some (flatten rs)))) (\<lambda>sub.
           bind (fieldEntry S (displayName al name)
                   (Some (f\<lparr>fieldType := Named (namedOf t)\<rparr>)) sub) (\<lambda>e.
           bind (helperMap S F k (Some P) post) (\<lambda>after.
           bind (lift (fromEntries (before @ nestEntry (int (listWrappers t)) e # after)))
             (\<lambda>object. ret (envelope object))))))
       \<and> (sels = None \<and> property shapeScalarMap (namedOf t) = Str s \<and> namedOf t \<noteq> []
            \<and> \<not> isObjectType S (Some (namedOf t)) \<and> \<not> isUnionType S (Some (namedOf t))
            \<and> \<not> isInterfaceType S (Some (namedOf t)) \<and> \<not> isEnumType S (Some (namedOf t))
          \<longrightarrow> helper S F k (Some P) (Field al name args sels) =
                ret (entry (displayName al name) (nest (int (listWrappers t)) (Str s))
                       (case fieldDescription f of None \<Rightarrow> Undefined | Some x \<Rightarrow> Str x)))"
proof (intro conjI impI)
  show "typeScriptForGraphQLType S k (Some t) =
           map_sum id (arrayOf (listWrappers t))
             (typeScriptForGraphQLType S k (Some (Named (namedOf t))))"
    by (rule mapper_unwraps)
next
  assume "property scalarMap (namedOf t) = Str m \<and> \<not> isObjectType S (Some (namedOf t))
            \<and> \<not> isInputObjectType S (Some (namedOf t)) \<and> \<not> isEnumType S (Some (namedOf t))"
  then have "typeScriptForGraphQLType S k (Some (Named (namedOf t))) = Inr (Str m)"
    using scalar_mapped[of S "namedOf t" m k] by simp
  then show "typeScriptForGraphQLType S k (Some t) = Inr (arrayOf (listWrappers t) (Str m))"
    using mapper_unwraps[of S k t] by (simp del: typeScriptForGraphQLType.simps)
next
  have named: "getNamedType (map_option fieldType (Some f)) = Some (namedOf t)"
    by (simp add: assms(6) getNamedType_def)
  have field: "helper S F k (Some P) (Field al name args sels) =
     bind (case sels of
             None \<Rightarrow> ret None
           | Some ss \<Rightarrow> bind (innerHelperMap S F k (Some (namedOf t)) ss)
                          (\<lambda>rs. ret (Some (flatten rs))))
       (\<lambda>sub. bind (fieldEntry S (displayName al name)
                      (Some (f\<lparr>fieldType := Named (namedOf t)\<rparr>)) sub)
                (\<lambda>e. ret (nestEntry (int (listWrappers t)) e)))"
    unfolding helper_field[OF assms(4,7)] assms(5) named
      fieldEntry_within[OF assms(1,2,6)] ..
  show "typeScriptDefinitionObjectForOperation S d F k =
           bind (helperMap S F k (Some P) pre) (\<lambda>before.
           bind (case sels of
                   None \<Rightarrow> ret None
                 | Some ss \<Rightarrow> bind (innerHelperMap S F k (Some (namedOf t)) ss)
                                (\<lambda>rs. ret (Some (flatten rs)))) (\<lambda>sub.
           bind (fieldEntry S (displayName al name)
                   (Some (f\<lparr>fieldType := Named (namedOf t)\<rparr>)) sub) (\<lambda>e.
           bind (helperMap S F k (Some P) post) (\<lambda>after.
           bind (lift (fromEntries (before @ nestEntry (int (listWrappers t)) e # after)))
             (\<lambda>object. ret (envelope object))))))"
    unfolding builder_around_selection[OF assms(3,8)] field
    by (simp only: bind_assoc bind_ret_left)
next
  assume scalar: "sels = None \<and> property shapeScalarMap (namedOf t) = Str s \<and> namedOf t \<noteq> []
            \<and> \<not> isObjectType S (Some (namedOf t)) \<and> \<not> isUnionType S (Some (namedOf t))
            \<and> \<not> isInterfaceType S (Some (namedOf t)) \<and> \<not> isEnumType S (Some (namedOf t))"
  have bare: "fieldEntry S (displayName al name)
                (Some (f\<lparr>fieldType := Named (namedOf t)\<rparr>)) None =
           ret (entry (displayName al name) (Str s)
                  (case fieldDescription f of None \<Rightarrow> Undefined | Some x \<Rightarrow> Str x))"
    using scalar_entry[of S "namedOf t" s "f\<lparr>fieldType := Named (namedOf t)\<rparr>"] scalar
    by simp
  show "helper S F k (Some P) (Field al name args sels) =
                ret (entry (displayName al name) (nest (int (listWrappers t)) (Str s))
                       (case fieldDescription f of None \<Rightarrow> Undefined | Some x \<Rightarrow> Str x))"
    unfolding helper_field[OF assms(4,7)] assms(5) fieldEntry_within[OF assms(1,2,6)]
    using scalar bare by (simp add: bind_ret_left entry_def nestEntry_def)
qed

text \<open>
  \<open>[[Int!]!]\<close> maps to \<open>Array<Array<number>>\<close>, and \<open>query { field matrix }\<close> gets the shape
  \<open>{ field: string, matrix: [[number]] }\<close> in its envelope.
\<close>

theorem list_nesting_follows_list_wrappers_witness:
  "typeScriptForGraphQLType itemSchema 0 (Some matrixType) = Inr (Str ''Array<Array<number>>'')
   \<and> typeScriptDefinitionObjectForOperation itemSchema queryFieldMatrix Map.empty 0 =
       ret (envelope (Obj
         [(''field'', Obj [(''type'', Str ''string''), (''description'', Undefined)]),
          (''matrix'', Obj [(''type'', Arr [Arr [Str ''number'']]),
                           (''description'', Undefined)])]))
   \<and> helper itemSchema Map.empty 0 (Some ''Query'') (Field None ''matrix'' (Some []) None) =
       ret (entry ''matrix'' (Arr [Arr [Str ''number'']]) Undefined)"
proof -
  let ?f = "\<lparr>fieldName = ''matrix'', fieldType = matrixType,
             fieldDescription = None, fieldArgs = []\<rparr>"
  have wf: "wellFormed matrixType" and depth: "wrappers matrixType \<le> maximumDepth"
    by (simp_all add: matrixType_def maximumDepth_def)
  have root: "baseGqlType itemSchema queryFieldMatrix = Inr (Some ''Query'')"
    by (simp add: baseGqlType_def queryFieldMatrix_def operationNode_def itemSchema_def)
  have fs: "getFields itemSchema ''Query'' = Inr (queryFields)"
    by (simp add: getFields_def getType_def itemSchema_def queryFields_def)
  have f: "lookupField queryFields ''matrix'' = Some ?f"
    by (simp add: lookupField_def queryFields_def)
  have ty: "fieldType ?f = matrixType"
    by simp
  have name: "\<not> startsWith ''matrix'' ''__''"
    by (simp add: startsWith_def)
  have sel: "selectionSet queryFieldMatrix =
      Some ([Field None ''field'' (Some []) None] @ Field None ''matrix'' (Some []) None # [])"
    by (simp add: queryFieldMatrix_def operationNode_def)
  have two: "listWrappers matrixType = 2" and int: "namedOf matrixType = ''Int''"
    by (simp_all add: matrixType_def)
  have mapped: "property scalarMap ''Int'' = Str ''number''"
    "\<not> isInputObjectType itemSchema (Some ''Int'')"
    by code_simp+
  have before: "helperMap itemSchema Map.empty 0 (Some ''Query'')
                  [Field None ''field'' (Some []) None]
                = ret [entry ''field'' (Str ''string'') Undefined]"
    by code_simp
  have base: "fieldEntry itemSchema (displayName None ''matrix'')
                (Some (?f\<lparr>fieldType := Named ''Int''\<rparr>)) None
              = ret (entry ''matrix'' (Str ''number'') Undefined)"
    by code_simp
  have after: "helperMap itemSchema Map.empty 0 (Some ''Query'') [] = ret []"
    by simp
  have scalar: "property shapeScalarMap ''Int'' = Str ''number''"
    "\<not> isObjectType itemSchema (Some ''Int'')" "\<not> isUnionType itemSchema (Some ''Int'')"
    "\<not> isInterfaceType itemSchema (Some ''Int'')" "\<not> isEnumType itemSchema (Some ''Int'')"
    by code_simp+
  note all = list_nesting_follows_list_wrappers
         [OF wf depth root fs f ty name sel,
          where m = "''number''" and k = 0 and F = Map.empty and s = "''number''",
          unfolded two int]
  have "typeScriptForGraphQLType itemSchema 0 (Some matrixType) = Inr (Str ''Array<Array<number>>'')"
    using all[THEN conjunct2, THEN conjunct1] mapped scalar
    by (simp add: arrayOf_def numeral_2_eq_2 del: typeScriptForGraphQLType.simps)
  moreover
  have "typeScriptDefinitionObjectForOperation itemSchema queryFieldMatrix Map.empty 0 =
       ret (envelope (Obj
         [(''field'', Obj [(''type'', Str ''string''), (''description'', Undefined)]),
          (''matrix'', Obj [(''type'', Arr [Arr [Str ''number'']]),
                           (''description'', Undefined)])]))"
    using all[THEN conjunct2, THEN conjunct2, THEN conjunct1]
    unfolding before base after option.case bind_ret_left
    by (simp add: nestEntry_def entry_def nest_def numeral_2_eq_2 fromEntries_def lift_def
          bind_def ret_def)
  moreover
  have "helper itemSchema Map.empty 0 (Some ''Query'') (Field None ''matrix'' (Some []) None) =
       ret (entry ''matrix'' (Arr [Arr [Str ''number'']]) Undefined)"
    using all[THEN conjunct2, THEN conjunct2, THEN conjunct2] scalar
    by (simp add: displayName_def nest_def numeral_2_eq_2 del: helper.simps)
  ultimately show ?thesis
    by (simp only: simp_thms)
qed

text \<open>
  C6. A type of more than 30 wrappers makes \<open>listCount\<close> write one warning and return the
  error sigil \<open>-99\<close>. \<open>helper\<close> does not test for the sigil: its loop that wraps the type
  in arrays runs no time on a negative level, and the entry of the field is the one the
  builder gives for the same field declared with the bare named type, sub-shape and
  all. So on a definition that selects such a field on its root type, among other
  selections before and after, the builder writes the warning and then gives the envelope
  of the entries of all the selections in their order, none truncated and none marked:
  the list nesting of the field is lost and nothing tells of it. No exception is thrown
  on account of the overrun, and the selections before and after are translated as they
  are without it.
\<close>

theorem overrun_drops_list_nesting_only:
  assumes "wellFormed t" "maximumDepth < wrappers t"
    and "baseGqlType S d = Inr (Some P)" "getFields S P = Inr fs"
    and "lookupField fs name = Some f" "fieldType f = t" "\<not> startsWith name ''__''"
    and "selectionSet d = Some (pre @ Field al name args sels # post)"
  shows "listCount (Some t) = ([''Bailing on potential infinite recursion''], Inr errorSigil)
       \<and> fieldEntry S dn (Some f) sub =
           bind (warn ''Bailing on potential infinite recursion'')
             (\<lambda>_. fieldEntry S dn (Some (f\<lparr>fieldType := Named (namedOf t)\<rparr>)) sub)
       \<and> typeScriptDefinitionObjectForOperation S d F k =
           bind (helperMap S F k (Some P) pre) (\<lambda>before.
           bind (case sels of
                   None \<Rightarrow> ret None
                 | Some ss \<Rightarrow> bind (innerHelperMap S F k (Some (namedOf t)) ss)
                                (\<lambda>rs. ret (Some (flatten rs)))) (\<lambda>sub.
           bind (warn ''Bailing on potential infinite recursion'') (\<lambda>_.
           bind (fieldEntry S (displayName al name)
                   (Some (f\<lparr>fieldType := Named (namedOf t)\<rparr>)) sub) (\<lambda>e.
           bind (helperMap S F k (Some P) post) (\<lambda>after.
           bind (lift (fromEntries (before @ e # after)))
             (\<lambda>object. ret (envelope object)))))))"
proof (intro conjI)
  show "listCount (Some t) = ([''Bailing on potential infinite recursion''], Inr errorSigil)"
    by (rule listCount_overrun[OF assms(2)])
next
  show "fieldEntry S dn (Some f) sub =
           bind (warn ''Bailing on potential infinite recursion'')
             (\<lambda>_. fieldEntry S dn (Some (f\<lparr>fieldType := Named (namedOf t)\<rparr>)) sub)"
    by (rule fieldEntry_overrun[OF assms(1,2,6)])
next
  have named: "getNamedType (map_option fieldType (Some f)) = Some (namedOf t)"
    by (simp add: assms(6) getNamedType_def)
  show "typeScriptDefinitionObjectForOperation S d F k =
           bind (helperMap S F k (Some P) pre) (\<lambda>before.
           bind (case sels of
                   None \<Rightarrow> ret None
                 | Some ss \<Rightarrow> bind (innerHelperMap S F k (Some (namedOf t)) ss)
                                (\<lambda>rs. ret (Some (flatten rs)))) (\<lambda>sub.
           bind (warn ''Bailing on potential infinite recursion'') (\<lambda>_.
           bind (fieldEntry S (displayName al name)
                   (Some (f\<lparr>fieldType := Named (namedOf t)\<rparr>)) sub) (\<lambda>e.
           bind (helperMap S F k (Some P) post) (\<lambda>after.
           bind (lift (fromEntries (before @ e # after)))
             (\<lambda>object. ret (envelope object)))))))"
    unfolding builder_around_selection[OF assms(3,8)] helper_field[OF assms(4,7)]
      assms(5) named fieldEntry_overrun[OF assms(1,2,6)]
    by (simp only: bind_assoc)
qed

text \<open>
  The field \<open>deep\<close> of the example schema has 31 list wrappers around \<open>Item\<close>. On
  \<open>query { field deep { id } plain { id } }\<close> the builder writes one warning and returns
  the three entries; the one of \<open>deep\<close> has the shape of \<open>Item\<close> as its type, as the one
  of \<open>plain\<close> has.
\<close>

theorem overrun_drops_list_nesting_only_witness:
  "listCount (Some deepType) = ([''Bailing on potential infinite recursion''], Inr errorSigil)
   \<and> typeScriptDefinitionObjectForOperation itemSchema queryAroundDeep Map.empty 0 =
       ([''Bailing on potential infinite recursion''],
        Inr (envelope (Obj
          [(''field'', Obj [(''type'', Str ''string''), (''description'', Undefined)]),
           (''deep'',
              Obj [(''type'', Obj [(''id'', Obj [(''type'', Str ''string''),
                                                 (''description'', Undefined)])]),
                   (''description'', Undefined)]),
           (''plain'',
              Obj [(''type'', Obj [(''id'', Obj [(''type'', Str ''string''),
                                                 (''description'', Undefined)])]),
                   (''description'', Undefined)])])))"
proof -
  let ?f = "\<lparr>fieldName = ''deep'', fieldType = deepType,
             fieldDescription = None, fieldArgs = []\<rparr>"
  let ?id = "Field None ''id'' (Some []) None"
  have wf: "wellFormed deepType" and depth: "maximumDepth < wrappers deepType"
    and item: "namedOf deepType = ''Item''"
    by (simp_all add: deepType_def funpow_ListT_measures maximumDepth_def)
  have root: "baseGqlType itemSchema queryAroundDeep = Inr (Some ''Query'')"
    by (simp add: baseGqlType_def queryAroundDeep_def operationNode_def itemSchema_def)
  have fs: "getFields itemSchema ''Query'' = Inr (queryFields)"
    by (simp add: getFields_def getType_def itemSchema_def queryFields_def)
  have f: "lookupField queryFields ''deep'' = Some ?f"
    by (simp add: lookupField_def queryFields_def)
  have ty: "fieldType ?f = deepType"
    by simp
  have name: "\<not> startsWith ''deep'' ''__''"
    by (simp add: startsWith_def)
  have sel: "selectionSet queryAroundDeep =
      Some ([Field None ''field'' (Some []) None]
            @ Field None ''deep'' (Some []) (Some [?id])
            # [Field None ''plain'' (Some []) (Some [?id])])"
    by (simp add: queryAroundDeep_def operationNode_def)
  have before: "helperMap itemSchema Map.empty 0 (Some ''Query'')
                  [Field None ''field'' (Some []) None]
                = ret [entry ''field'' (Str ''string'') Undefined]"
    by code_simp
  have inner: "innerHelperMap itemSchema Map.empty 0 (Some ''Item'') [?id]
                = ret [entry ''id'' (Str ''string'') Undefined]"
    by code_simp
  have flat: "flatten [entry ''id'' (Str ''string'') Undefined]
                = [entry ''id'' (Str ''string'') Undefined]"
    by code_simp
  have base: "fieldEntry itemSchema (displayName None ''deep'')
        (Some (?f\<lparr>fieldType := Named ''Item''\<rparr>))
        (Some [entry ''id'' (Str ''string'') Undefined])
       = ret (entry ''deep'' (Obj [(''id'', Obj [(''type'', Str ''string''),
                                                (''description'', Undefined)])])
                 Undefined)"
    by code_simp
  have after: "helperMap itemSchema Map.empty 0 (Some ''Query'')
                  [Field None ''plain'' (Some []) (Some [?id])]
       = ret [entry ''plain'' (Obj [(''id'', Obj [(''type'', Str ''string''),
                                                 (''description'', Undefined)])])
                 Undefined]"
    by code_simp
  note all = overrun_drops_list_nesting_only
         [OF wf depth root fs f ty name sel, of _ _ Map.empty 0, unfolded item]
  have "listCount (Some deepType)
          = ([''Bailing on potential infinite recursion''], Inr errorSigil)"
    using all[THEN conjunct1] .
  moreover
  have "typeScriptDefinitionObjectForOperation itemSchema queryAroundDeep Map.empty 0 =
       ([''Bailing on potential infinite recursion''],
        Inr (envelope (Obj
          [(''field'', Obj [(''type'', Str ''string''), (''description'', Undefined)]),
           (''deep'',
              Obj [(''type'', Obj [(''id'', Obj [(''type'', Str ''string''),
                                                 (''description'', Undefined)])]),
                   (''description'', Undefined)]),
           (''plain'',
              Obj [(''type'', Obj [(''id'', Obj [(''type'', Str ''string''),
                                                 (''description'', Undefined)])]),
                   (''description'', Undefined)])])))"
    using all[THEN conjunct2, THEN conjunct2]
    unfolding before inner flat base after option.case bind_ret_left
    by (simp add: entry_def fromEntries_def lift_def bind_def ret_def warn_def)
  ultimately show ?thesis
    by (simp only: simp_thms)
qed

text \<open>
  The specification's truncated subtree and marker are not there on
  \<open>query { deep { id } }\<close>: the shape of \<open>deep\<close> is the complete shape of \<open>{ id }\<close>, with
  nothing in it that tells of the overrun; but for the name of the field and the warning
  it is the result of \<open>query { plain { id } }\<close>, where the field has the type \<open>Item\<close>.
\<close>

theorem overrun_keeps_subtree_unmarked:
  "maximumDepth < wrappers deepType
   \<and> typeScriptDefinitionObjectForOperation itemSchema queryDeep Map.empty 0 =
       ([''Bailing on potential infinite recursion''],
        Inr (envelope (Obj [(''deep'',
               Obj [(''type'', Obj [(''id'', Obj [(''type'', Str ''string''),
                                                  (''description'', Undefined)])]),
                    (''description'', Undefined)])])))
   \<and> typeScriptDefinitionObjectForOperation itemSchema queryPlain Map.empty 0 =
       ([],
        Inr (envelope (Obj [(''plain'',
               Obj [(''type'', Obj [(''id'', Obj [(''type'', Str ''string''),
                                                  (''description'', Undefined)])]),
                    (''description'', Undefined)])])))"
  by code_simp

section \<open>The webhook patchers on a store: properties\<close>

lemma extends_iff: "extends h h' \<longleftrightarrow> (\<exists>xs. h' = h @ xs)"
  unfolding extends_def by (metis append_eq_conv_conj append_take_drop_id)

lemma extends_refl: "extends h h"
  by (simp add: extends_def)

lemma extends_trans: "extends h h1 \<Longrightarrow> extends h1 h2 \<Longrightarrow> extends h h2"
  unfolding extends_iff by auto

lemma extends_append: "extends h h1 \<Longrightarrow> extends h (h1 @ xs)"
  unfolding extends_iff by auto

lemma patchSelectionOnStore_extends:
  "extends h (fst (patchSelectionOnStore S T a h r))"
proof (cases "deref h r")
  case None
  then show ?thesis by (simp add: patchSelectionOnStore_def extends_refl)
next
  case (Some ob)
  show ?thesis
  proof (cases ob)
    case (FieldObj al name args sels)
    show ?thesis
    proof (cases "getFields S T")
      case (Inl e)
      then show ?thesis using Some FieldObj by (simp add: patchSelectionOnStore_def extends_refl)
    next
      case (Inr fs)
      show ?thesis
      proof (cases "lookupField fs name")
        case None
        then show ?thesis using Some FieldObj Inr
          by (simp add: patchSelectionOnStore_def extends_refl)
      next
        case field: (Some field)
        show ?thesis using Some FieldObj Inr field
          by (simp add: patchSelectionOnStore_def extends_refl alloc_def extends_iff)
      qed
    qed
  qed (use Some in \<open>simp_all add: patchSelectionOnStore_def extends_refl\<close>)
qed


lemma mapOnStore_extends:
  assumes "\<And>h r. extends h (fst (f h r))"
  shows "extends h (fst (mapOnStore f h rs))"
proof (induction rs arbitrary: h)
  case Nil
  show ?case by (simp add: extends_refl)
next
  case (Cons r rs)
  obtain h1 x where f: "f h r = (h1, x)" by (cases "f h r")
  have e1: "extends h h1" using assms[of h r] f by simp
  show ?case
  proof (cases x)
    case (Inl e)
    then show ?thesis using f e1 by simp
  next
    case (Inr r')
    obtain h2 y where m: "mapOnStore f h1 rs = (h2, y)" by (cases "mapOnStore f h1 rs")
    have "extends h1 h2" using Cons[of h1] m by simp
    then have "extends h h2" using e1 extends_trans by blast
    then show ?thesis using f Inr m by (cases y) simp_all
  qed
qed

lemma patchDefinitionOnStore_extends:
  "extends h (fst (patchDefinitionOnStore a v S h d))"
proof (cases "deref h d")
  case None
  then show ?thesis by (simp add: patchDefinitionOnStore_def extends_refl)
next
  case (Some ob)
  show ?thesis
  proof (cases ob)
    case (DefinitionObj k op tc vds ss)
    note unfold = patchDefinitionOnStore_def Some DefinitionObj
    show ?thesis
    proof (cases "op = Some Subscription")
      case False
      then show ?thesis by (simp add: unfold extends_refl)
    next
      case True
      show ?thesis
      proof (cases "subscriptionType S")
        case None
        then show ?thesis using True by (simp add: unfold extends_refl)
      next
        case T: (Some T)
        show ?thesis
        proof (cases "Option.bind ss (deref h)")
          case None
          then show ?thesis using True T by (simp add: unfold extends_refl)
        next
          case ssob: (Some ssob)
          show ?thesis
          proof (cases ssob)
            case (SelectionSetObj selections)
            obtain h1 x where m: "mapOnStore (patchSelectionOnStore S T a) h
                           (elements h (Some selections)) = (h1, x)"
              by (cases "mapOnStore (patchSelectionOnStore S T a) h (elements h (Some selections))")
            have e1: "extends h h1"
              using mapOnStore_extends[of "patchSelectionOnStore S T a" h
                      "elements h (Some selections)"] patchSelectionOnStore_extends m
              by simp
            show ?thesis
            proof (cases x)
              case (Inl e)
              then show ?thesis using True T ssob SelectionSetObj m e1 by (simp add: unfold)
            next
              case (Inr rs)
              from e1 obtain xs where "h1 = h @ xs" unfolding extends_iff by blast
              then show ?thesis using True T ssob SelectionSetObj m Inr
                by (simp add: unfold alloc_def Let_def extends_iff)
            qed
          qed (use True T ssob in \<open>simp_all add: unfold extends_refl\<close>)
        qed
      qed
    qed
  qed (use Some in \<open>simp_all add: patchDefinitionOnStore_def extends_refl\<close>)
qed

lemma patchDefinitionOnStore_noop:
  assumes "deref h d = Some (DefinitionObj k op tc vds ss)"
    "op \<noteq> Some Subscription \<or> subscriptionType S = None"
  shows "patchDefinitionOnStore a v S h d = (h, Inr d)"
  using assms by (auto simp: patchDefinitionOnStore_def)

lemma patchDefinition_noop:
  assumes "operation d \<noteq> Some Subscription \<or> subscriptionType S = None"
  shows "patchDefinition a v S d = Inr d"
  using assms by (auto simp: patchDefinition_def)

lemma deref_stable: "extends h h' \<Longrightarrow> deref h r = Some x \<Longrightarrow> deref h' r = Some x"
  unfolding extends_iff by (auto simp: deref_def nth_append split: if_splits)

lemma those_map_stable:
  assumes "\<And>r x. rd h r = Some x \<Longrightarrow> rd h' r = Some x"
  shows "those (map (rd h) rs) = Some xs \<Longrightarrow> those (map (rd h') rs) = Some xs"
proof (induction rs arbitrary: xs)
  case Nil
  then show ?case by simp
next
  case (Cons r rs)
  then show ?case using assms[of r] by (auto split: option.splits)
qed

lemma readArray_stable:
  assumes "extends h h'" "\<And>r x. rd h r = Some x \<Longrightarrow> rd h' r = Some x"
    "readArray rd h a = Some xs"
  shows "readArray rd h' a = Some xs"
proof (cases a)
  case None
  then show ?thesis using assms(3) by (simp add: readArray_def)
next
  case (Some r)
  then obtain rs ys where rs: "deref h r = Some (ArrayObj rs)"
    and ys: "those (map (rd h) rs) = Some ys" and xs: "xs = Some ys"
    using assms(3) by (auto simp: readArray_def split: option.splits obj.splits)
  have "those (map (rd h') rs) = Some ys"
    using those_map_stable[of rd h h', OF assms(2) ys] .
  then show ?thesis
    using Some deref_stable[OF assms(1) rs] xs by (simp add: readArray_def)
qed

lemma readArgument_stable:
  "extends h h' \<Longrightarrow> readArgument h r = Some x \<Longrightarrow> readArgument h' r = Some x"
  using deref_stable[of h h' r]
  by (auto simp: readArgument_def split: option.splits obj.splits)

lemma readVariable_stable:
  "extends h h' \<Longrightarrow> readVariable h r = Some x \<Longrightarrow> readVariable h' r = Some x"
  using deref_stable[of h h' r]
  by (auto simp: readVariable_def split: option.splits obj.splits)

lemma readSelection_stable:
  assumes "extends h h'" "readSelection nested h r = Some x"
  shows "readSelection nested h' r = Some x"
proof -
  obtain ob where ob: "deref h r = Some ob"
    using assms(2) by (cases "deref h r") (simp_all add: readSelection_def)
  have ob': "deref h' r = Some ob" using deref_stable[OF assms(1) ob] .
  show ?thesis
  proof (cases ob)
    case (FieldObj al name args sels)
    then obtain as where as: "readArray readArgument h args = Some as"
      and x: "x = Field al name as (map_option nested sels)"
      using assms(2) ob by (auto simp: readSelection_def)
    have "readArray readArgument h' args = Some as"
      using readArray_stable[OF assms(1) _ as] readArgument_stable[OF assms(1)] by blast
    then show ?thesis using ob' FieldObj x by (simp add: readSelection_def)
  qed (use assms(2) ob ob' in \<open>simp_all add: readSelection_def\<close>)
qed

lemma readDefinition_stable:
  assumes "extends h h'" "readDefinition nested h d = Some D"
  shows "readDefinition nested h' d = Some D"
proof -
  obtain ob where ob: "deref h d = Some ob"
    using assms(2) by (cases "deref h d") (simp_all add: readDefinition_def)
  then obtain k op tc vds ss where def: "ob = DefinitionObj k op tc vds ss"
    using assms(2) by (cases ob) (simp_all add: readDefinition_def)
  have ob': "deref h' d = Some (DefinitionObj k op tc vds ss)"
    using deref_stable[OF assms(1) ob] def by simp
  obtain vs where vs: "readArray readVariable h vds = Some vs"
    using assms(2) ob def by (cases "readArray readVariable h vds") (simp_all add: readDefinition_def)
  have vs': "readArray readVariable h' vds = Some vs"
    using readArray_stable[OF assms(1) _ vs] readVariable_stable[OF assms(1)] by blast
  show ?thesis
  proof (cases ss)
    case None
    then show ?thesis using assms(2) ob def ob' vs vs' by (simp add: readDefinition_def)
  next
    case (Some r)
    then obtain selections sels where r: "deref h r = Some (SelectionSetObj selections)"
      and sels: "readArray (readSelection nested) h (Some selections) = Some (Some sels)"
      and D: "D = \<lparr>kind = k, operation = op, typeCondition = tc,
                    variableDefinitions = vs, selectionSet = Some sels\<rparr>"
      using assms(2) ob def vs
      by (auto simp: readDefinition_def split: option.splits obj.splits)
    have "readArray (readSelection nested) h' (Some selections) = Some (Some sels)"
      using readArray_stable[OF assms(1) _ sels] readSelection_stable[OF assms(1)] by blast
    then show ?thesis
      using Some deref_stable[OF assms(1) r] ob' vs' D by (simp add: readDefinition_def)
  qed
qed


lemma those_append:
  "those (xs @ ys) =
     (case those xs of
        None \<Rightarrow> None
      | Some as \<Rightarrow> (case those ys of None \<Rightarrow> None | Some bs \<Rightarrow> Some (as @ bs)))"
  by (induction xs) (auto split: option.splits)

lemma elements_read:
  assumes "readArray rd h a = Some xs"
  shows "those (map (rd h) (elements h a)) = Some (case xs of None \<Rightarrow> [] | Some l \<Rightarrow> l)"
  using assms
  by (cases a) (auto simp: readArray_def elements_def split: option.splits obj.splits)

lemma those_map_concat:
  "those (map f rs) = Some xs \<Longrightarrow>
   concat (map (\<lambda>r. case f r of Some x \<Rightarrow> [g x] | None \<Rightarrow> []) rs) = map g xs"
  by (induction rs arbitrary: xs) (auto split: option.splits)

lemma argumentNames_read:
  assumes "readArray readArgument h a = Some xs"
  shows "argumentNames h a = map argumentName (case xs of None \<Rightarrow> [] | Some l \<Rightarrow> l)"
proof -
  have eq: "(\<lambda>r. case deref h r of Some (ArgumentObj arg) \<Rightarrow> [argumentName arg] | _ \<Rightarrow> [])
          = (\<lambda>r. case readArgument h r of Some x \<Rightarrow> [argumentName x] | None \<Rightarrow> [])"
    by (auto simp: readArgument_def fun_eq_iff split: option.splits obj.splits)
  show ?thesis
    unfolding argumentNames_def eq
    by (rule those_map_concat) (rule elements_read[OF assms])
qed

lemma variableNames_read:
  assumes "readArray readVariable h a = Some xs"
  shows "variableNames h a = map variableName (case xs of None \<Rightarrow> [] | Some l \<Rightarrow> l)"
proof -
  have eq: "(\<lambda>r. case deref h r of Some (VariableDefinitionObj v) \<Rightarrow> [variableName v] | _ \<Rightarrow> [])
          = (\<lambda>r. case readVariable h r of Some x \<Rightarrow> [variableName x] | None \<Rightarrow> [])"
    by (auto simp: readVariable_def fun_eq_iff split: option.splits obj.splits)
  show ?thesis
    unfolding variableNames_def eq
    by (rule those_map_concat) (rule elements_read[OF assms])
qed

lemma list_ex_map_name: "list_ex (\<lambda>n. n = x) (map f xs) = list_ex (\<lambda>a. f a = x) xs"
  by (induction xs) auto

lemma extends_self_append: "extends h (h @ xs)"
  by (simp add: extends_iff)

lemma deref_new: "deref (h @ xs) (length h + i) = (if i < length xs then Some (xs ! i) else None)"
  by (simp add: deref_def nth_append)

lemma deref_new0: "deref (h @ x # xs) (length h) = Some x"
  using deref_new[of h "x # xs" 0] by simp

lemma patchSelection_sim:
  assumes "readSelection nested h r = Some sel"
  shows "case patchSelectionOnStore S T a h r of
           (h', Inl e) \<Rightarrow> patchSelection S T a sel = Inl e
         | (h', Inr r') \<Rightarrow>
             (\<exists>sel'. patchSelection S T a sel = Inr sel' \<and> readSelection nested h' r' = Some sel')"
proof -
  obtain ob where ob: "deref h r = Some ob"
    using assms by (cases "deref h r") (simp_all add: readSelection_def)
  show ?thesis
  proof (cases ob)
    case (FieldObj al name args sels)
    then obtain as where as: "readArray readArgument h args = Some as"
      and sel: "sel = Field al name as (map_option nested sels)"
      using assms ob by (auto simp: readSelection_def)
    note unfold = patchSelectionOnStore_def ob FieldObj sel
    show ?thesis
    proof (cases "getFields S T")
      case (Inl e)
      then show ?thesis by (simp add: unfold)
    next
      case (Inr fs)
      show ?thesis
      proof (cases "lookupField fs name")
        case None
        then show ?thesis using Inr by (simp add: unfold)
      next
        case (Some field)
        let ?old = "case as of None \<Rightarrow> [] | Some l \<Rightarrow> l"
        have has: "list_ex (\<lambda>n. n = argumentName a) (argumentNames h args)
                     = selectionHasArg as (argumentName a)"
          unfolding argumentNames_read[OF as] list_ex_map_name
          by (cases as) (simp_all add: selectionHasArg_def)
        show ?thesis
        proof (cases "list_ex (\<lambda>arg. arg = argumentName a) (fieldArgs field)
                        \<and> \<not> selectionHasArg as (argumentName a)")
          case False
          then show ?thesis using Inr Some has assms by (auto simp: unfold)
        next
          case True
          let ?h3 = "h @ [ArgumentObj a, ArrayObj (elements h args @ [length h]),
                          FieldObj al name (Some (Suc (length h))) sels]"
          have store: "patchSelectionOnStore S T a h r = (?h3, Inr (Suc (Suc (length h))))"
            using Inr Some has True by (simp add: unfold alloc_def)
          have pure: "patchSelection S T a sel = Inr (Field al name (Some (?old @ [a])) (map_option nested sels))"
            using Inr Some True by (simp add: sel)
          have ext: "extends h ?h3" by (rule extends_self_append)
          have old: "those (map (readArgument ?h3) (elements h args)) = Some ?old"
            using those_map_stable[of readArgument h ?h3, OF _ elements_read[OF as]]
              readArgument_stable[OF ext] by blast
          have new: "readArgument ?h3 (length h) = Some a"
            by (simp add: readArgument_def deref_new0)
          have arr: "deref ?h3 (Suc (length h)) = Some (ArrayObj (elements h args @ [length h]))"
            using deref_new[of h _ 1] by simp
          have fld: "deref ?h3 (Suc (Suc (length h))) = Some (FieldObj al name (Some (Suc (length h))) sels)"
            using deref_new[of h _ 2] by simp
          have "readSelection nested ?h3 (Suc (Suc (length h)))
                  = Some (Field al name (Some (?old @ [a])) (map_option nested sels))"
            by (simp add: readSelection_def fld readArray_def arr those_append old new)
          then show ?thesis using store pure by simp
        qed
      qed
    qed
  next
    case (InlineFragmentObj tc sels)
    then show ?thesis using assms ob by (auto simp: patchSelectionOnStore_def readSelection_def)
  next
    case (FragmentSpreadObj name)
    then show ?thesis using assms ob by (auto simp: patchSelectionOnStore_def readSelection_def)
  qed (use assms ob in \<open>simp_all add: readSelection_def\<close>)
qed


lemma mapOnStore_sim:
  assumes "those (map (readSelection nested h) rs) = Some sels"
  shows "case mapOnStore (patchSelectionOnStore S T a) h rs of
           (h', Inl e) \<Rightarrow> sequence (map (patchSelection S T a) sels) = Inl e
         | (h', Inr rs') \<Rightarrow>
             (\<exists>sels'. sequence (map (patchSelection S T a) sels) = Inr sels'
                \<and> those (map (readSelection nested h') rs') = Some sels')"
  using assms
proof (induction rs arbitrary: h sels)
  case Nil
  then show ?case by simp
next
  case (Cons r rest)
  from Cons.prems obtain sel sels0 where sel: "readSelection nested h r = Some sel"
    and rest: "those (map (readSelection nested h) rest) = Some sels0"
    and sels: "sels = sel # sels0"
    by (auto split: option.splits)
  obtain h1 x where p: "patchSelectionOnStore S T a h r = (h1, x)"
    by (cases "patchSelectionOnStore S T a h r")
  have e1: "extends h h1" using patchSelectionOnStore_extends[of h S T a r] p by simp
  show ?case
  proof (cases x)
    case (Inl e)
    then show ?thesis using patchSelection_sim[OF sel, of S T a] p sels by simp
  next
    case (Inr r')
    then obtain sel' where pure: "patchSelection S T a sel = Inr sel'"
      and read': "readSelection nested h1 r' = Some sel'"
      using patchSelection_sim[OF sel, of S T a] p by auto
    have rest1: "those (map (readSelection nested h1) rest) = Some sels0"
      using those_map_stable[of "readSelection nested" h h1, OF _ rest]
        readSelection_stable[OF e1] by blast
    obtain h2 y where m: "mapOnStore (patchSelectionOnStore S T a) h1 rest = (h2, y)"
      by (cases "mapOnStore (patchSelectionOnStore S T a) h1 rest")
    have e2: "extends h1 h2"
      using mapOnStore_extends[of "patchSelectionOnStore S T a" h1 rest]
        patchSelectionOnStore_extends m by simp
    show ?thesis
    proof (cases y)
      case (Inl e)
      then show ?thesis using Cons.IH[OF rest1] m p Inr pure sels by simp
    next
      case inr: (Inr rs')
      then obtain sels' where seq: "sequence (map (patchSelection S T a) sels0) = Inr sels'"
        and reads: "those (map (readSelection nested h2) rs') = Some sels'"
        using Cons.IH[OF rest1] m by auto
      have "readSelection nested h2 r' = Some sel'"
        using readSelection_stable[OF e2 read'] .
      then show ?thesis using m p Inr inr pure sels seq reads by simp
    qed
  qed
qed


lemma readDefinition_Some:
  assumes "readDefinition nested h d = Some D"
  shows "\<exists>k op tc vds ss vs.
           deref h d = Some (DefinitionObj k op tc vds ss)
           \<and> readArray readVariable h vds = Some vs
           \<and> kind D = k \<and> operation D = op \<and> typeCondition D = tc
           \<and> variableDefinitions D = vs
           \<and> (ss = None \<longrightarrow> selectionSet D = None)"
proof -
  obtain ob where ob: "deref h d = Some ob"
    using assms by (cases "deref h d") (simp_all add: readDefinition_def)
  then obtain k op tc vds ss where def: "ob = DefinitionObj k op tc vds ss"
    using assms by (cases ob) (simp_all add: readDefinition_def)
  obtain vs where vs: "readArray readVariable h vds = Some vs"
    using assms ob def by (cases "readArray readVariable h vds") (simp_all add: readDefinition_def)
  have "kind D = k \<and> operation D = op \<and> typeCondition D = tc \<and> variableDefinitions D = vs
        \<and> (ss = None \<longrightarrow> selectionSet D = None)"
    using assms ob def vs
    by (auto simp: readDefinition_def split: option.splits obj.splits)
  then show ?thesis using ob def vs by blast
qed

lemma patchDefinition_sim:
  assumes "readDefinition nested h d = Some D"
  shows "case patchDefinitionOnStore a v S h d of
           (h', Inl e) \<Rightarrow> patchDefinition a v S D = Inl e
         | (h', Inr d') \<Rightarrow>
             (\<exists>D'. patchDefinition a v S D = Inr D' \<and> readDefinition nested h' d' = Some D')"
proof -
  from assms obtain k op tc vds ss vs where
    ob: "deref h d = Some (DefinitionObj k op tc vds ss)" and
    vs: "readArray readVariable h vds = Some vs" and
    D: "kind D = k" "operation D = op" "typeCondition D = tc" "variableDefinitions D = vs" and
    noss: "ss = None \<longrightarrow> selectionSet D = None"
    using readDefinition_Some[OF assms] by blast
  note unfold = patchDefinitionOnStore_def ob
  show ?thesis
  proof (cases "op = Some Subscription")
    case False
    then show ?thesis using assms D by (simp add: unfold patchDefinition_def)
  next
    case True
    show ?thesis
    proof (cases "subscriptionType S")
      case None
      then show ?thesis using True assms D by (simp add: unfold patchDefinition_def)
    next
      case T: (Some T)
      show ?thesis
      proof (cases ss)
        case None
        then show ?thesis using True T D noss by (simp add: unfold patchDefinition_def)
      next
        case (Some r)
        then obtain selections rs sels where r: "deref h r = Some (SelectionSetObj selections)"
          and arr: "deref h selections = Some (ArrayObj rs)"
          and sels: "those (map (readSelection nested h) rs) = Some sels"
          and Ds: "selectionSet D = Some sels"
          using assms ob vs
          by (auto simp: readDefinition_def readArray_def split: option.splits obj.splits)
        have el: "elements h (Some selections) = rs"
          using arr by (simp add: elements_def)
        obtain h1 x where m: "mapOnStore (patchSelectionOnStore S T a) h rs = (h1, x)"
          by (cases "mapOnStore (patchSelectionOnStore S T a) h rs")
        have e1: "extends h h1"
          using mapOnStore_extends[of "patchSelectionOnStore S T a" h rs]
            patchSelectionOnStore_extends m by simp
        show ?thesis
        proof (cases x)
          case (Inl e)
          then show ?thesis
            using mapOnStore_sim[OF sels, of S T a] m True T Some r el D Ds
            by (simp add: unfold patchDefinition_def)
        next
          case (Inr rs')
          then obtain sels' where seq: "sequence (map (patchSelection S T a) sels) = Inr sels'"
            and reads: "those (map (readSelection nested h1) rs') = Some sels'"
            using mapOnStore_sim[OF sels, of S T a] m by auto
          let ?old = "case vs of None \<Rightarrow> [] | Some l \<Rightarrow> l"
          define h2 where "h2 = h1 @ [ArrayObj rs']"
          have e2: "extends h h2" unfolding h2_def
            using e1 extends_append by blast
          have e12: "extends h1 h2" unfolding h2_def by (rule extends_self_append)
          have vs2: "readArray readVariable h2 vds = Some vs"
            using readArray_stable[OF e2 _ vs] readVariable_stable[OF e2] by blast
          have has: "list_ex (\<lambda>n. n = variableName v) (variableNames h2 vds)
                 = (case vs of None \<Rightarrow> False
                    | Some l \<Rightarrow> list_ex (\<lambda>x. variableName x = variableName v) l)"
            unfolding variableNames_read[OF vs2] list_ex_map_name by (cases vs) simp_all
          have arr2: "deref h2 (length h1) = Some (ArrayObj rs')"
            unfolding h2_def by (rule deref_new0)
          have reads2: "those (map (readSelection nested h2) rs') = Some sels'"
            using those_map_stable[of "readSelection nested" h1 h2, OF _ reads]
              readSelection_stable[OF e12] by blast
          show ?thesis
          proof (cases "list_ex (\<lambda>n. n = variableName v) (variableNames h2 vds)")
            case yes: True
            define h5 where "h5 = h2 @ [SelectionSetObj (length h1),
                                         DefinitionObj k op tc vds (Some (length h2))]"
            have store: "patchDefinitionOnStore a v S h d = (h5, Inr (Suc (length h2)))"
              using True T Some r el m Inr yes
              by (simp add: unfold alloc_def h2_def h5_def Let_def)
            have pure: "patchDefinition a v S D = Inr (D\<lparr>variableDefinitions := vs,
                                                        selectionSet := Some sels'\<rparr>)"
              using True T D Ds seq yes has
              by (simp add: patchDefinition_def Let_def)
            have e25: "extends h2 h5" unfolding h5_def by (rule extends_self_append)
            have "readDefinition nested h5 (Suc (length h2))
                    = Some \<lparr>kind = k, operation = op, typeCondition = tc,
                            variableDefinitions = vs, selectionSet = Some sels'\<rparr>"
            proof -
              have d5: "deref h5 (Suc (length h2))
                          = Some (DefinitionObj k op tc vds (Some (length h2)))"
                unfolding h5_def using deref_new[of h2 _ 1] by simp
              have s5: "deref h5 (length h2) = Some (SelectionSetObj (length h1))"
                unfolding h5_def by (rule deref_new0)
              have a5: "deref h5 (length h1) = Some (ArrayObj rs')"
                using deref_stable[OF e25 arr2] .
              have v5: "readArray readVariable h5 vds = Some vs"
                using readArray_stable[OF e25 _ vs2] readVariable_stable[OF e25] by blast
              have r5: "those (map (readSelection nested h5) rs') = Some sels'"
                using those_map_stable[of "readSelection nested" h2 h5, OF _ reads2]
                  readSelection_stable[OF e25] by blast
              have sa5: "readArray (readSelection nested) h5 (Some (length h1))
                           = Some (Some sels')"
                by (simp add: readArray_def a5 r5)
              show ?thesis
                by (simp add: readDefinition_def d5 s5 v5 sa5)
            qed
            moreover have "D\<lparr>variableDefinitions := vs, selectionSet := Some sels'\<rparr>
                    = \<lparr>kind = k, operation = op, typeCondition = tc,
                            variableDefinitions = vs, selectionSet = Some sels'\<rparr>"
              using D by (cases D) simp
            ultimately show ?thesis using store pure by simp
          next
            case no: False
            define h5 where "h5 = h2 @ [VariableDefinitionObj v,
                                         ArrayObj (elements h2 vds @ [length h2]),
                                         SelectionSetObj (length h1),
                                         DefinitionObj k op tc (Some (Suc (length h2)))
                                           (Some (Suc (Suc (length h2))))]"
            have store: "patchDefinitionOnStore a v S h d = (h5, Inr (Suc (Suc (Suc (length h2)))))"
              using True T Some r el m Inr no
              by (simp add: unfold alloc_def h2_def h5_def Let_def)
            have pure: "patchDefinition a v S D = Inr (D\<lparr>variableDefinitions := Some (?old @ [v]),
                                                        selectionSet := Some sels'\<rparr>)"
              using True T D Ds seq no has
              by (cases vs) (simp_all add: patchDefinition_def Let_def)
            have e25: "extends h2 h5" unfolding h5_def by (rule extends_self_append)
            have "readDefinition nested h5 (Suc (Suc (Suc (length h2))))
                    = Some \<lparr>kind = k, operation = op, typeCondition = tc,
                            variableDefinitions = Some (?old @ [v]), selectionSet = Some sels'\<rparr>"
            proof -
              have d5: "deref h5 (Suc (Suc (Suc (length h2))))
                          = Some (DefinitionObj k op tc (Some (Suc (length h2)))
                                           (Some (Suc (Suc (length h2)))))"
                unfolding h5_def using deref_new[of h2 _ 3] by (simp add: numeral_3_eq_3)
              have s5: "deref h5 (Suc (Suc (length h2))) = Some (SelectionSetObj (length h1))"
                unfolding h5_def using deref_new[of h2 _ 2] by simp
              have va5: "deref h5 (Suc (length h2))
                           = Some (ArrayObj (elements h2 vds @ [length h2]))"
                unfolding h5_def using deref_new[of h2 _ 1] by simp
              have nv5: "readVariable h5 (length h2) = Some v"
                unfolding h5_def by (simp add: readVariable_def deref_new0)
              have a5: "deref h5 (length h1) = Some (ArrayObj rs')"
                using deref_stable[OF e25 arr2] .
              have old5: "those (map (readVariable h5) (elements h2 vds)) = Some ?old"
                using those_map_stable[of readVariable h2 h5, OF _ elements_read[OF vs2]]
                  readVariable_stable[OF e25] by blast
              have r5: "those (map (readSelection nested h5) rs') = Some sels'"
                using those_map_stable[of "readSelection nested" h2 h5, OF _ reads2]
                  readSelection_stable[OF e25] by blast
              have sa5: "readArray (readSelection nested) h5 (Some (length h1))
                           = Some (Some sels')"
                by (simp add: readArray_def a5 r5)
              have v5: "readArray readVariable h5 (Some (Suc (length h2)))
                          = Some (Some (?old @ [v]))"
                by (simp add: readArray_def va5 those_append old5 nv5)
              show ?thesis
                by (simp add: readDefinition_def d5 s5 v5 sa5)
            qed
            moreover have "D\<lparr>variableDefinitions := Some (?old @ [v]), selectionSet := Some sels'\<rparr>
                    = \<lparr>kind = k, operation = op, typeCondition = tc,
                            variableDefinitions = Some (?old @ [v]), selectionSet = Some sels'\<rparr>"
              using D by (cases D) simp
            ultimately show ?thesis using store pure by simp
          qed
        qed
      qed
    qed
  qed
qed


text \<open>The two models agree: on a store that holds a definition, the patcher on the
  store throws when the patcher on the value throws, and else returns a reference to
  the definition that the patcher on the value returns.\<close>

lemma patchers_on_store_refine:
  assumes "readDefinition nested h d = Some D"
  shows "case patchSubscriptionWebhookFieldOnStore S h d of
           (h', Inl e) \<Rightarrow> patchSubscriptionWebhookField S D = Inl e
         | (h', Inr d') \<Rightarrow>
             (\<exists>D'. patchSubscriptionWebhookField S D = Inr D'
                \<and> readDefinition nested h' d' = Some D')"
    and "case patchSubscriptionWebhookSecretFieldOnStore S h d of
           (h', Inl e) \<Rightarrow> patchSubscriptionWebhookSecretField S D = Inl e
         | (h', Inr d') \<Rightarrow>
             (\<exists>D'. patchSubscriptionWebhookSecretField S D = Inr D'
                \<and> readDefinition nested h' d' = Some D')"
  unfolding patchSubscriptionWebhookFieldOnStore_def patchSubscriptionWebhookField_def
    patchSubscriptionWebhookSecretFieldOnStore_def patchSubscriptionWebhookSecretField_def
  by (rule patchDefinition_sim[OF assms])+

text \<open>
  C8. Neither patcher changes an object it was given: whatever the schema, the store and
  the reference are, every object of the store before the call is in the store after
  the call, under the same reference and with the same contents (also when the call
  throws); so the definition that the input reference stands for is after the call what
  it was before. When the definition is not a subscription operation, or the schema has
  no subscription root, the call returns the very reference it was given and the store
  as it was; as values, the returned definition is the input.
\<close>

theorem patchers_leave_input_unchanged:
  "extends h (fst (patchSubscriptionWebhookFieldOnStore S h d))
   \<and> extends h (fst (patchSubscriptionWebhookSecretFieldOnStore S h d))
   \<and> (readDefinition nested h d = Some D
      \<longrightarrow> readDefinition nested (fst (patchSubscriptionWebhookFieldOnStore S h d)) d = Some D
        \<and> readDefinition nested (fst (patchSubscriptionWebhookSecretFieldOnStore S h d)) d
            = Some D)
   \<and> (deref h d = Some (DefinitionObj k op tc vds ss)
        \<and> (op \<noteq> Some Subscription \<or> subscriptionType S = None)
      \<longrightarrow> patchSubscriptionWebhookFieldOnStore S h d = (h, Inr d)
        \<and> patchSubscriptionWebhookSecretFieldOnStore S h d = (h, Inr d))
   \<and> (operation e \<noteq> Some Subscription \<or> subscriptionType S = None
      \<longrightarrow> patchSubscriptionWebhookField S e = Inr e
        \<and> patchSubscriptionWebhookSecretField S e = Inr e)"
proof -
  have frame: "extends h (fst (patchDefinitionOnStore a v S h d))" for a v
    by (rule patchDefinitionOnStore_extends)
  have kept: "readDefinition nested (fst (patchDefinitionOnStore a v S h d)) d = Some D"
    if "readDefinition nested h d = Some D" for a v
    using readDefinition_stable[OF frame that] .
  show ?thesis
    using frame kept patchDefinitionOnStore_noop patchDefinition_noop
    by (simp add: patchSubscriptionWebhookFieldOnStore_def
          patchSubscriptionWebhookSecretFieldOnStore_def
          patchSubscriptionWebhookField_def patchSubscriptionWebhookSecretField_def)
qed

text \<open>A query is returned as it came. Patching the subscription leaves the four objects
  of its store as they were, and the reference 3 stands for \<open>subscription
  { onItemChanged }\<close> as before.\<close>

theorem patchers_leave_input_unchanged_witness:
  "patchSubscriptionWebhookFieldOnStore itemSchema queryStore 3 = (queryStore, Inr 3)
   \<and> patchSubscriptionWebhookSecretFieldOnStore itemSchema queryStore 3 = (queryStore, Inr 3)
   \<and> patchSubscriptionWebhookField itemSchema queryQ = Inr queryQ
   \<and> patchSubscriptionWebhookSecretField itemSchema queryQ = Inr queryQ
   \<and> take 4 (fst (patchSubscriptionWebhookFieldOnStore itemSchema subscriptionStore 3))
       = subscriptionStore
   \<and> readDefinition (\<lambda>r. [])
        (fst (patchSubscriptionWebhookFieldOnStore itemSchema subscriptionStore 3)) 3
       = Some (operationNode Subscription [Field None ''onItemChanged'' None None]
                 \<lparr>variableDefinitions := None\<rparr>)"
proof -
  have q: "deref queryStore 3
             = Some (DefinitionObj OperationDefinition (Some Query) None None (Some 2))"
    by (simp add: deref_def queryStore_def)
  have len: "length subscriptionStore = 4"
    by (simp add: subscriptionStore_def)
  have before: "readDefinition (\<lambda>r. []) subscriptionStore 3
       = Some (operationNode Subscription [Field None ''onItemChanged'' None None]
                 \<lparr>variableDefinitions := None\<rparr>)"
    by code_simp
  from patchers_leave_input_unchanged
         [where h = queryStore and d = 3 and S = itemSchema and op = "Some Query"
            and e = queryQ]
       patchers_leave_input_unchanged
         [where h = subscriptionStore and d = 3 and S = itemSchema
            and nested = "\<lambda>r. []"]
  show ?thesis
    by (simp add: q len before extends_def queryQ_def)
qed

text \<open>The store after patching the subscription: eight new objects, the patched
  definition at reference 11, which stands for \<open>subscription ($netligraphWebhookUrl:
  String!) { onItemChanged (webhookUrl: $netligraphWebhookUrl) }\<close>.\<close>

lemma subscription_store_patched:
  "patchSubscriptionWebhookFieldOnStore itemSchema subscriptionStore 3 =
     (subscriptionStore @
        [ArgumentObj webhookUrlArgument,
         ArrayObj [4],
         FieldObj None ''onItemChanged'' (Some 5) None,
         ArrayObj [6],
         VariableDefinitionObj webhookUrlVariable,
         ArrayObj [8],
         SelectionSetObj 7,
         DefinitionObj OperationDefinition (Some Subscription) None (Some 9) (Some 10)],
      Inr 11)"
  by code_simp

section \<open>The collector of referenced types: properties\<close>

lemma set_foldl_addType:
  "set (foldl addType acc ts) = set acc \<union> {normalise (namedOf t) | t. Some t \<in> set ts}"
proof (induction ts arbitrary: acc)
  case Nil
  show ?case by simp
next
  case (Cons x ts)
  show ?case
  proof (cases x)
    case None
    then show ?thesis using Cons[of acc] by (simp add: addType_def)
  next
    case (Some t)
    then show ?thesis using Cons[of "addType acc x"]
      by (auto simp: addType_def Let_def)
  qed
qed

lemma distinct_foldl_addType:
  "distinct acc \<Longrightarrow> distinct (foldl addType acc ts)"
proof (induction ts arbitrary: acc)
  case Nil
  then show ?case by simp
next
  case (Cons x ts)
  have "distinct (addType acc x)"
    using Cons.prems by (cases x) (simp_all add: addType_def Let_def)
  then show ?case using Cons.IH by simp
qed

lemma fragment_type_in_context:
  assumes "kind d = FragmentDefinition" "typeCondition d = Some T" "getType S T = Some def"
    "\<not> isInputObjectType S (Some T)"
  shows "Some (Named T) \<in> set (typesAtDefinition S d)"
  using assms by (simp add: typesAtDefinition_def outputOnly_def isOutputType_def Let_def)

lemma fragment_field_type_in_context:
  assumes "kind d = FragmentDefinition" "typeCondition d = Some T" "getType S T = Some def"
    "\<not> isInputObjectType S (Some T)"
    "compositeParent S (Some (Named T)) = Some T"
    "selectionSet d = Some sels" "Field al name args ss \<in> set sels"
    "getFieldDef S T name = Some ft" "\<not> isInputObjectType S (Some (namedOf ft))"
  shows "Some ft \<in> set (typesAtDefinition S d)"
proof -
  have "Some ft \<in> set (typesAtSelection S (Some (Named T)) (Some T) (Field al name args ss))"
    using assms(8,9) by (simp add: outputOnly_def isOutputType_def Let_def)
  then show ?thesis
    using assms(1-7)
    by (auto simp: typesAtDefinition_def outputOnly_def isOutputType_def Let_def
          simp del: typesAtSelection.simps)
qed

lemma definition_types_in_context:
  "d \<in> set document \<Longrightarrow> set (typesAtDefinition S d) \<subseteq> set (typesInContext S document)"
  by (auto simp: typesInContext_def)

text \<open>
  C4 (as the code has it). The collector returns, without repetition, the normalised
  names of the named types of the output types in context at the nodes of the document:
  the root types of its operations, the types of the fields that resolve on their
  parent type, the type conditions of its inline fragments and fragment definitions. A
  name is normalised by lower-casing it and removing the first occurrence of \<open>oneme\<close>. A
  fragment definition of the document contributes its type and the types of its fields,
  so a type selected only inside a fragment is in the result.
\<close>

theorem collector_gathers_output_types_in_context:
  "distinct (gatherAllReferencedTypes S document)
   \<and> set (gatherAllReferencedTypes S document)
       = {normalise (namedOf t) | t. Some t \<in> set (typesInContext S document)}
   \<and> (d \<in> set document \<and> kind d = FragmentDefinition \<and> typeCondition d = Some T
        \<and> getType S T = Some def \<and> \<not> isInputObjectType S (Some T)
      \<longrightarrow> normalise T \<in> set (gatherAllReferencedTypes S document)
        \<and> (compositeParent S (Some (Named T)) = Some T
             \<and> selectionSet d = Some sels \<and> Field al name args ss \<in> set sels
             \<and> getFieldDef S T name = Some ft \<and> \<not> isInputObjectType S (Some (namedOf ft))
           \<longrightarrow> normalise (namedOf ft) \<in> set (gatherAllReferencedTypes S document)))"
proof -
  have sets: "set (gatherAllReferencedTypes S document)
       = {normalise (namedOf t) | t. Some t \<in> set (typesInContext S document)}"
    by (simp add: gatherAllReferencedTypes_def set_foldl_addType)
  have "distinct (gatherAllReferencedTypes S document)"
    by (simp add: gatherAllReferencedTypes_def distinct_foldl_addType)
  moreover have "normalise T \<in> set (gatherAllReferencedTypes S document)"
    if "d \<in> set document" "kind d = FragmentDefinition" "typeCondition d = Some T"
       "getType S T = Some def" "\<not> isInputObjectType S (Some T)"
    using fragment_type_in_context[OF that(2-5)] definition_types_in_context[OF that(1), of S]
    unfolding sets by force
  moreover have "normalise (namedOf ft) \<in> set (gatherAllReferencedTypes S document)"
    if "d \<in> set document" "kind d = FragmentDefinition" "typeCondition d = Some T"
       "getType S T = Some def" "\<not> isInputObjectType S (Some T)"
       "compositeParent S (Some (Named T)) = Some T"
       "selectionSet d = Some sels" "Field al name args ss \<in> set sels"
       "getFieldDef S T name = Some ft" "\<not> isInputObjectType S (Some (namedOf ft))"
    using fragment_field_type_in_context[OF that(2-10)]
      definition_types_in_context[OF that(1), of S]
    unfolding sets by force
  ultimately show ?thesis
    using sets by blast
qed

text \<open>
  \<open>query { plain { ...ItemParts } }\<close> with \<open>fragment ItemParts on Item { id }\<close>: the type
  \<open>ID\<close> is selected only inside the fragment, and \<open>id\<close> is in the result. Without the
  fragment definition in the document it is not.
\<close>

theorem collector_gathers_output_types_in_context_witness:
  "gatherAllReferencedTypes itemSchema [queryWithSpread, fragmentItemParts]
     = [''query'', ''item'', ''id'']
   \<and> ''id'' \<in> set (gatherAllReferencedTypes itemSchema [queryWithSpread, fragmentItemParts])
   \<and> gatherAllReferencedTypes itemSchema [queryWithSpread] = [''query'', ''item'']"
proof -
  have ev: "gatherAllReferencedTypes itemSchema [queryWithSpread, fragmentItemParts]
              = [''query'', ''item'', ''id'']"
       "gatherAllReferencedTypes itemSchema [queryWithSpread] = [''query'', ''item'']"
    by code_simp+
  have item: "getType itemSchema ''Item''
                = Some (ObjectType [\<lparr>fieldName = ''id'', fieldType = Named ''ID'',
                                     fieldDescription = None, fieldArgs = []\<rparr>])"
    by (simp add: getType_def itemSchema_def)
  have facts: "\<not> isInputObjectType itemSchema (Some ''Item'')"
       "\<not> isInputObjectType itemSchema (Some ''ID'')"
       "compositeParent itemSchema (Some (Named ''Item'')) = Some ''Item''"
       "getFieldDef itemSchema ''Item'' ''id'' = Some (Named ''ID'')"
       "normalise ''ID'' = ''id''"
    by code_simp+
  have outer: "fragmentItemParts \<in> set [queryWithSpread, fragmentItemParts]
       \<and> kind fragmentItemParts = FragmentDefinition
       \<and> typeCondition fragmentItemParts = Some ''Item''
       \<and> getType itemSchema ''Item''
           = Some (ObjectType [\<lparr>fieldName = ''id'', fieldType = Named ''ID'',
                                fieldDescription = None, fieldArgs = []\<rparr>])
       \<and> \<not> isInputObjectType itemSchema (Some ''Item'')"
    using item facts by (simp add: fragmentItemParts_def)
  have inner: "compositeParent itemSchema (Some (Named ''Item'')) = Some ''Item''
       \<and> selectionSet fragmentItemParts = Some [Field None ''id'' (Some []) None]
       \<and> Field None ''id'' (Some []) None \<in> set [Field None ''id'' (Some []) None]
       \<and> getFieldDef itemSchema ''Item'' ''id'' = Some (Named ''ID'')
       \<and> \<not> isInputObjectType itemSchema (Some (namedOf (Named ''ID'')))"
    using facts by (simp add: fragmentItemParts_def)
  from collector_gathers_output_types_in_context
         [where S = itemSchema and document = "[queryWithSpread, fragmentItemParts]",
          THEN conjunct2, THEN conjunct2, THEN mp, OF outer, THEN conjunct2, THEN mp, OF inner]
  have "''id'' \<in> set (gatherAllReferencedTypes itemSchema [queryWithSpread, fragmentItemParts])"
    using facts(5) by simp
  with ev show ?thesis by simp
qed

text \<open>
  Not all the types that the document refers to are collected. Take
  \<open>query Q ($a: Int, $b: String) { field }\<close>: the document refers to \<open>Int\<close>, a type of
  the schema, as the type of the variable \<open>a\<close>, and \<open>int\<close> is not in the result. (The
  string \<open>string\<close> is there as the type of \<open>field\<close>.) The examples of \<open>normalise\<close> show
  the lower-casing, and that one occurrence of \<open>oneme\<close> is removed.
\<close>

theorem collector_skips_input_types:
  "variableDefinitions queryQ
     = Some [\<lparr>variableName = ''a'', variableType = NamedType ''Int''\<rparr>,
             \<lparr>variableName = ''b'', variableType = NamedType ''String''\<rparr>]
   \<and> getType itemSchema ''Int'' = Some ScalarType
   \<and> gatherAllReferencedTypes itemSchema [queryQ] = [''query'', ''string'']
   \<and> ''int'' \<notin> set (gatherAllReferencedTypes itemSchema [queryQ])"
  by code_simp

lemma normalise_examples:
  "normalise ''OneMeUser'' = ''user''"
  "normalise ''GitHubRepository'' = ''githubrepository''"
  "normalise ''OnemeOneme'' = ''oneme''"
  by code_simp+

end
